theory Spec2Isabelle
  imports Complex_Main "HOL-Library.Char_ord" "HOL-Library.List_Lexorder" "HOL-Library.Multiset"
begin

section \<open>Host-language primitives\<close>

text \<open>
  The program is a JavaScript class, \<^verbatim>\<open>BankAccountSystem\<close> in \<^verbatim>\<open>src/bank-Js.js\<close>.
  Its methods are embedded as functions that take the object's state and return the
  new one. Conventions of the embedding:
  \<^item> a JavaScript string is a \<^typ>\<open>string\<close>; \<^verbatim>\<open><\<close> on strings is the
    lexicographic order on character codes (\<^theory_text>\<open>List_Lexorder\<close> over
    \<^theory_text>\<open>Char_ord\<close>);
  \<^item> a JavaScript number is an exact rational: the rounding of binary64 arithmetic is
    not modelled. The value \<^verbatim>\<open>NaN\<close> is modelled where the code can produce it;
  \<^item> an object used as a dictionary is a map; property names inherited from
    \<^verbatim>\<open>Object.prototype\<close> are not modelled;
  \<^item> the numeric strings covered are strings of decimal digits. The further spellings
    \<^verbatim>\<open>Number\<close> and \<^verbatim>\<open>parseInt\<close> accept (sign, exponent, hexadecimal prefix,
    a trailing dot) are treated as not numeric;
  \<^item> \<^verbatim>\<open>parseFloat\<close> is not modelled: a method that parses an amount or a rate takes
    the parsed value as an argument, \<open>None\<close> for \<^verbatim>\<open>NaN\<close>;
  \<^item> \<^verbatim>\<open>Array.prototype.sort\<close> is stable (ECMAScript 2019), and
    \<^verbatim>\<open>localeCompare\<close> on the strings of digits the program sorts by is the
    lexicographic order.
\<close>

definition isDigit :: "char \<Rightarrow> bool" where
  "isDigit c = (CHR ''0'' \<le> c \<and> c \<le> CHR ''9'')"

definition digitVal :: "char \<Rightarrow> nat" where
  "digitVal c = of_char c - 48"

definition digitChar :: "nat \<Rightarrow> char" where
  "digitChar n = ''0123456789'' ! n"

text \<open>\<^verbatim>\<open>n.toString()\<close> for a non-negative integer.\<close>

fun toString :: "nat \<Rightarrow> string" where
  "toString n = (if n < 10 then [digitChar n] else toString (n div 10) @ [digitChar (n mod 10)])"

declare toString.simps [simp del]

text \<open>\<^verbatim>\<open>s.padStart(n, c)\<close> for a one-character pad string.\<close>

definition padStart :: "nat \<Rightarrow> char \<Rightarrow> string \<Rightarrow> string" where
  "padStart n c s = replicate (n - length s) c @ s"

text \<open>\<^verbatim>\<open>s.substring(a, b)\<close> for \<open>a \<le> b\<close>; the indices are clamped to the length.\<close>

definition substring :: "nat \<Rightarrow> nat \<Rightarrow> string \<Rightarrow> string" where
  "substring a b s = take (b - a) (drop a s)"

definition startsWith :: "string \<Rightarrow> string \<Rightarrow> bool" where
  "startsWith s p = (take (length p) s = p)"

text \<open>\<^verbatim>\<open>parseInt(s)\<close>: the value of the longest prefix of digits, \<open>None\<close> (NaN) if
  there is none.\<close>

definition parseInt :: "string \<Rightarrow> nat option" where
  "parseInt s =
     (let ds = takeWhile isDigit s
      in if ds = [] then None else Some (foldl (\<lambda>n c. 10 * n + digitVal c) 0 ds))"

text \<open>\<^verbatim>\<open>isNaN(s)\<close> on a string: \<^verbatim>\<open>Number(s)\<close> is a number for a string of digits
  (and 0 for the empty string).\<close>

definition isNaN :: "string \<Rightarrow> bool" where
  "isNaN s = (\<not> list_all isDigit s)"

definition toUpperCase :: "string \<Rightarrow> string" where
  "toUpperCase s =
     map (\<lambda>c. if CHR ''a'' \<le> c \<and> c \<le> CHR ''z'' then char_of (of_char c - (32::nat)) else c) s"

definition localeCompare :: "string \<Rightarrow> string \<Rightarrow> int" where
  "localeCompare a b = (if a < b then - 1 else if a = b then 0 else 1)"

text \<open>\<^verbatim>\<open>xs.sort(cmp)\<close>: a stable sort by a comparator, here by insertion. An element
  goes before the first one it does not compare greater than, and the elements are
  inserted from the last to the first, so equal elements keep their order.\<close>

fun insertBy :: "('a \<Rightarrow> 'a \<Rightarrow> int) \<Rightarrow> 'a \<Rightarrow> 'a list \<Rightarrow> 'a list" where
  "insertBy cmp x [] = [x]"
| "insertBy cmp x (y # ys) = (if cmp x y \<le> 0 then x # y # ys else y # insertBy cmp x ys)"

definition sortBy :: "('a \<Rightarrow> 'a \<Rightarrow> int) \<Rightarrow> 'a list \<Rightarrow> 'a list" where
  "sortBy cmp xs = foldr (insertBy cmp) xs []"

text \<open>\<^verbatim>\<open>xs.findIndex(p)\<close>, \<open>None\<close> for \<open>-1\<close>.\<close>

fun findIndex :: "('a \<Rightarrow> bool) \<Rightarrow> 'a list \<Rightarrow> nat option" where
  "findIndex p [] = None"
| "findIndex p (x # xs) = (if p x then Some 0 else map_option Suc (findIndex p xs))"

subsection \<open>Dates\<close>

text \<open>
  \<^verbatim>\<open>new Date(year, monthIndex, day)\<close> in the proleptic Gregorian calendar: a year from 0
  to 99 means 1900 + year, and month and day out of range carry over. The result is the
  triple read by \<^verbatim>\<open>getFullYear()\<close>, \<^verbatim>\<open>getMonth()\<close> and \<^verbatim>\<open>getDate()\<close>. Time
  zones are not modelled.
\<close>

definition isLeapYear :: "int \<Rightarrow> bool" where
  "isLeapYear y = (y mod 4 = 0 \<and> (y mod 100 \<noteq> 0 \<or> y mod 400 = 0))"

definition daysIn :: "int \<Rightarrow> int \<Rightarrow> int" where
  "daysIn y m =
     (if m = 1 then (if isLeapYear y then 29 else 28)
      else if m = 3 \<or> m = 5 \<or> m = 8 \<or> m = 10 then 30 else 31)"

function carryDays :: "int \<Rightarrow> int \<Rightarrow> int \<Rightarrow> int \<times> int \<times> int" where
  "carryDays y m d =
     (if d < 1 then
        (let y' = y + (m - 1) div 12; m' = (m - 1) mod 12 in carryDays y' m' (d + daysIn y' m'))
      else if daysIn y m < d then
        carryDays (y + (m + 1) div 12) ((m + 1) mod 12) (d - daysIn y m)
      else (y, m, d))"
  by pat_completeness auto
termination
proof (relation "measure (\<lambda>(y, m, d). nat (if d < 1 then 32 - d else d))", goal_cases)
  case 1
  show ?case by simp
next
  case (2 y m d y' m')
  have "28 \<le> daysIn y' m' \<and> daysIn y' m' \<le> 31" by (simp add: daysIn_def)
  with 2 show ?case by auto
next
  case (3 y m d)
  have "28 \<le> daysIn y m \<and> daysIn y m \<le> 31" by (simp add: daysIn_def)
  with 3 show ?case by auto
qed

declare carryDays.simps [simp del]

definition newDate :: "int \<Rightarrow> int \<Rightarrow> int \<Rightarrow> int \<times> int \<times> int" where
  "newDate year month day =
     (let y = (if 0 \<le> year \<and> year \<le> 99 then 1900 + year else year)
      in carryDays (y + month div 12) (month mod 12) day)"

definition getFullYear :: "int \<times> int \<times> int \<Rightarrow> int" where
  "getFullYear dt = fst dt"

definition getMonth :: "int \<times> int \<times> int \<Rightarrow> int" where
  "getMonth dt = fst (snd dt)"

definition getDate :: "int \<times> int \<times> int \<Rightarrow> int" where
  "getDate dt = snd (snd dt)"

definition isValidDate :: "string \<Rightarrow> bool" where
  "isValidDate dateStr =
     (if length dateStr \<noteq> 8 \<or> isNaN dateStr then False
      else
        (case (parseInt (substring 0 4 dateStr), parseInt (substring 4 6 dateStr),
               parseInt (substring 6 8 dateStr)) of
           (Some year, Some mm, Some day) \<Rightarrow>
             (let month = int mm - 1; date = newDate (int year) month (int day)
              in getFullYear date = int year \<and> getMonth date = month \<and> getDate date = int day)
         | _ \<Rightarrow> False))"

text \<open>\<^verbatim>\<open>amountStr.split(".")\<close>.\<close>

fun split_dot :: "string \<Rightarrow> string list" where
  "split_dot [] = [[]]"
| "split_dot (c # cs) =
     (if c = CHR ''.'' then [] # split_dot cs
      else (case split_dot cs of p # ps \<Rightarrow> (c # p) # ps | [] \<Rightarrow> [[c]]))"

definition isValidAmount :: "string \<Rightarrow> bool" where
  "isValidAmount amountStr =
     (let parts = split_dot amountStr
      in length parts = 1 \<or> (length parts = 2 \<and> length (parts ! 1) \<le> 2))"

text \<open>
  \<^verbatim>\<open>x.toFixed(2)\<close>: the integer \<open>n\<close> with \<open>n / 100\<close> nearest to \<open>\<bar>x\<bar>\<close>, the larger
  one at a tie, written with two decimals behind the sign of \<open>x\<close> (for
  \<open>\<bar>x\<bar>\<close> below \<open>10^21\<close>; from there on \<^verbatim>\<open>toFixed\<close> prints a binary64
  number, an integer, as it is).
  \<open>toFixedValue\<close> is \<^verbatim>\<open>parseFloat(x.toFixed(2))\<close>.
\<close>

definition toFixedCents :: "rat \<Rightarrow> nat" where
  "toFixedCents x = nat \<lfloor>100 * \<bar>x\<bar> + 1 / 2\<rfloor>"

definition toFixed :: "rat \<Rightarrow> string" where
  "toFixed x =
     (let n = toFixedCents x
      in (if x < 0 then ''-'' else []) @ toString (n div 100) @ ''.''
           @ padStart 2 (CHR ''0'') (toString (n mod 100)))"

definition toFixedValue :: "rat \<Rightarrow> rat" where
  "toFixedValue x = (if x < 0 then - (of_nat (toFixedCents x) / 100) else of_nat (toFixedCents x) / 100)"

section \<open>The bank: state and methods\<close>

record transaction =
  txn_date :: string
  txn_account :: string
  txn_type :: string
  txn_amount :: rat
  txn_id :: string
  txn_balance :: rat

record account =
  createdDate :: string
  acc_transactions :: "transaction list"

record interest_rule =
  rule_date :: string
  rule_id :: string
  rule_rate :: rat

record bank =
  accounts :: "string \<Rightarrow> account option"
  transactions :: "transaction list"
  interestRules :: "interest_rule list"
  runningNumbers :: "string \<Rightarrow> nat option"

record statement_line =
  line_date :: string
  line_txnId :: string
  line_type :: string
  line_amount :: string
  line_balance :: string

text \<open>
  Every message the methods print before they prompt again is an error value; the names
  are those of the specification where it has one. \<open>TypeError\<close> is the exception of
  reading a property of \<^verbatim>\<open>undefined\<close>.
\<close>

datatype error =
    InvalidDate
  | InvalidType
  | InvalidAmount
  | InvalidDecimals
  | UnopenedAccountWithdrawal
  | InsufficientFunds
  | InvalidRate
  | AccountNotFound
  | InvalidMonth
  | NoActivity
  | TypeError

datatype number = Num rat | NaN

text \<open>The constructor.\<close>

definition BankAccountSystem :: bank where
  "BankAccountSystem =
     \<lparr>accounts = Map.empty, transactions = [], interestRules = [], runningNumbers = Map.empty\<rparr>"

definition calculateNewBalance :: "rat \<Rightarrow> string \<Rightarrow> rat \<Rightarrow> rat" where
  "calculateNewBalance balance ty amount =
     (if ty = ''D'' then balance + amount else balance - amount)"

text \<open>The loop \<^verbatim>\<open>for (const txn of txns) balance = this.calculateNewBalance(balance,
  txn.type, txn.amount)\<close>, which four methods contain.\<close>

definition balanceAfter :: "rat \<Rightarrow> transaction list \<Rightarrow> rat" where
  "balanceAfter balance txns =
     foldl (\<lambda>b txn. calculateNewBalance b (txn_type txn) (txn_amount txn)) balance txns"

definition getAccountBalance :: "bank \<Rightarrow> string \<Rightarrow> rat option" where
  "getAccountBalance s account =
     (case accounts s account of
        None \<Rightarrow> None
      | Some acc \<Rightarrow> Some (balanceAfter 0 (acc_transactions acc)))"

definition generateTransactionId :: "bank \<Rightarrow> string \<Rightarrow> string \<times> bank" where
  "generateTransactionId s dateStr =
     (let n = (case runningNumbers s dateStr of None \<Rightarrow> 0 | Some k \<Rightarrow> k) + 1
      in (dateStr @ ''-'' @ padStart 2 (CHR ''0'') (toString n),
          s\<lparr>runningNumbers := (runningNumbers s)(dateStr \<mapsto> n)\<rparr>))"

text \<open>The comparator \<^verbatim>\<open>(a, b) => a.date.localeCompare(b.date)\<close>.\<close>

definition byDate :: "transaction \<Rightarrow> transaction \<Rightarrow> int" where
  "byDate a b = localeCompare (txn_date a) (txn_date b)"

text \<open>The statement lines of a list of transactions, from a starting balance.\<close>

fun statementLines :: "rat \<Rightarrow> transaction list \<Rightarrow> statement_line list" where
  "statementLines balance [] = []"
| "statementLines balance (txn # txns) =
     (let balance' = calculateNewBalance balance (txn_type txn) (txn_amount txn)
      in \<lparr>line_date = txn_date txn, line_txnId = txn_id txn, line_type = txn_type txn,
           line_amount = toFixed (txn_amount txn), line_balance = toFixed balance'\<rparr>
         # statementLines balance' txns)"

text \<open>\<^verbatim>\<open>displayAccountStatement\<close> sorts the account's own array in place.\<close>

definition displayAccountStatement ::
  "bank \<Rightarrow> string \<Rightarrow> error + (statement_line list \<times> bank)" where
  "displayAccountStatement s account =
     (case accounts s account of
        None \<Rightarrow> Inl TypeError
      | Some acc \<Rightarrow>
          (let txns = sortBy byDate (acc_transactions acc)
           in Inr (statementLines 0 txns,
                   s\<lparr>accounts := (accounts s)(account \<mapsto> acc\<lparr>acc_transactions := txns\<rparr>)\<rparr>)))"

text \<open>Lines 161 to 187 of \<^verbatim>\<open>inputTransaction\<close>: the transaction is recorded.\<close>

definition recordTransaction ::
  "bank \<Rightarrow> string \<Rightarrow> string \<Rightarrow> string \<Rightarrow> rat \<Rightarrow> (error + statement_line list) \<times> bank" where
  "recordTransaction s dateStr account ty amount =
     (let (txnId, s1) = generateTransactionId s dateStr;
          txn = \<lparr>txn_date = dateStr, txn_account = account, txn_type = ty,
                 txn_amount = amount, txn_id = txnId, txn_balance = 0\<rparr>;
          s2 = s1\<lparr>transactions := transactions s1 @ [txn]\<rparr>;
          acc = (case accounts s2 account of
                   None \<Rightarrow> \<lparr>createdDate = dateStr, acc_transactions = []\<rparr>
                 | Some a \<Rightarrow> a);
          s3 = s2\<lparr>accounts :=
                 (accounts s2)(account \<mapsto> acc\<lparr>acc_transactions := acc_transactions acc @ [txn]\<rparr>)\<rparr>
      in case displayAccountStatement s3 account of
           Inl e \<Rightarrow> (Inl e, s3)
         | Inr (lines, s4) \<Rightarrow> (Inr lines, s4))"

text \<open>
  \<^verbatim>\<open>inputTransaction\<close> from line 112, on the four parts of the input line and the value
  of \<^verbatim>\<open>parseFloat(amountStr)\<close>. A rejected input returns the state it was given.
\<close>

definition inputTransaction ::
  "bank \<Rightarrow> string \<Rightarrow> string \<Rightarrow> string \<Rightarrow> string \<Rightarrow> rat option
     \<Rightarrow> (error + statement_line list) \<times> bank" where
  "inputTransaction s dateStr account typeStr amountStr parsedAmount =
     (let ty = toUpperCase typeStr
      in if \<not> isValidDate dateStr then (Inl InvalidDate, s)
         else if ty \<noteq> ''D'' \<and> ty \<noteq> ''W'' then (Inl InvalidType, s)
         else
           (case parsedAmount of
              None \<Rightarrow> (Inl InvalidAmount, s)
            | Some amount \<Rightarrow>
                if amount \<le> 0 then (Inl InvalidAmount, s)
                else if \<not> isValidAmount amountStr then (Inl InvalidDecimals, s)
                else
                  (case (if ty = ''W'' then
                           (case getAccountBalance s account of
                              None \<Rightarrow> Some UnopenedAccountWithdrawal
                            | Some currentBalance \<Rightarrow>
                                if currentBalance < amount then Some InsufficientFunds else None)
                         else None) of
                     Some e \<Rightarrow> (Inl e, s)
                   | None \<Rightarrow> recordTransaction s dateStr account ty amount)))"

text \<open>\<^verbatim>\<open>defineInterestRule\<close> from line 222, on the parts of the input line and the value
  of \<^verbatim>\<open>parseFloat(rateStr)\<close>.\<close>

definition byRuleDate :: "interest_rule \<Rightarrow> interest_rule \<Rightarrow> int" where
  "byRuleDate a b = localeCompare (rule_date a) (rule_date b)"

definition defineInterestRule ::
  "bank \<Rightarrow> string \<Rightarrow> string \<Rightarrow> rat option \<Rightarrow> (error + interest_rule list) \<times> bank" where
  "defineInterestRule s dateStr ruleId parsedRate =
     (if \<not> isValidDate dateStr then (Inl InvalidDate, s)
      else
        (case parsedRate of
           None \<Rightarrow> (Inl InvalidRate, s)
         | Some r \<Rightarrow>
             if r \<le> 0 \<or> 100 \<le> r then (Inl InvalidRate, s)
             else
               (let rule = \<lparr>rule_date = dateStr, rule_id = ruleId, rule_rate = r\<rparr>;
                    rules = (case findIndex (\<lambda>x. rule_date x = dateStr) (interestRules s) of
                               Some existingRuleIndex \<Rightarrow> (interestRules s)[existingRuleIndex := rule]
                             | None \<Rightarrow> interestRules s @ [rule]);
                    rules' = sortBy byRuleDate rules
                in (Inr rules', s\<lparr>interestRules := rules'\<rparr>))))"

definition getInterestRate :: "bank \<Rightarrow> string \<Rightarrow> rat" where
  "getInterestRate s date =
     (let applicableRules = filter (\<lambda>rule. rule_date rule \<le> date) (interestRules s)
      in case sortBy (\<lambda>a b. localeCompare (rule_date b) (rule_date a)) applicableRules of
           [] \<Rightarrow> 0
         | rule # _ \<Rightarrow> rule_rate rule)"

subsection \<open>The monthly interest\<close>

text \<open>The key \<^verbatim>\<open>monthStr + day.toString().padStart(2, "0")\<close> of the table of daily
  balances.\<close>

definition dateKey :: "string \<Rightarrow> nat \<Rightarrow> string" where
  "dateKey monthStr day = monthStr @ padStart 2 (CHR ''0'') (toString day)"

text \<open>The days \<^verbatim>\<open>for (let d = from; d <= daysInMonth; d++)\<close> visits; none when
  \<^verbatim>\<open>daysInMonth\<close> is NaN.\<close>

definition daysFrom :: "nat \<Rightarrow> nat option \<Rightarrow> nat list" where
  "daysFrom from daysInMonth = (case daysInMonth of None \<Rightarrow> [] | Some n \<Rightarrow> [from..<Suc n])"

definition setDays ::
  "string \<Rightarrow> nat list \<Rightarrow> rat \<Rightarrow> (string \<Rightarrow> rat option) \<Rightarrow> (string \<Rightarrow> rat option)" where
  "setDays monthStr days balance dailyBalances =
     foldl (\<lambda>m d. m(dateKey monthStr d \<mapsto> balance)) dailyBalances days"

text \<open>One round of the loop over the month's transactions (lines 512 to 525).\<close>

definition applyMonthTransaction ::
  "string \<Rightarrow> nat option \<Rightarrow> rat \<times> (string \<Rightarrow> rat option) \<Rightarrow> transaction
     \<Rightarrow> rat \<times> (string \<Rightarrow> rat option)" where
  "applyMonthTransaction monthStr daysInMonth st txn =
     (let currentBalance = calculateNewBalance (fst st) (txn_type txn) (txn_amount txn)
      in (currentBalance,
          (case parseInt (substring 6 8 (txn_date txn)) of
             None \<Rightarrow> snd st
           | Some day \<Rightarrow> setDays monthStr (daysFrom day daysInMonth) currentBalance (snd st))))"

text \<open>\<^verbatim>\<open>totalInterest += (((periodBalance * currentRate) / 100) * periodDays) / 365\<close>,
  NaN when the balance is \<^verbatim>\<open>undefined\<close> or the number of days is NaN.\<close>

definition addPeriodInterest :: "number \<Rightarrow> rat option \<Rightarrow> rat \<Rightarrow> int option \<Rightarrow> number" where
  "addPeriodInterest totalInterest periodBalance currentRate periodDays =
     (case (totalInterest, periodBalance, periodDays) of
        (Num t, Some b, Some n) \<Rightarrow> Num (t + b * currentRate / 100 * of_int n / 365)
      | _ \<Rightarrow> NaN)"

text \<open>One round of the loop over the days 2 to \<^verbatim>\<open>daysInMonth\<close> (lines 532 to 551), on
  \<^verbatim>\<open>totalInterest\<close>, \<^verbatim>\<open>currentPeriodStart\<close> and \<^verbatim>\<open>currentRate\<close>.\<close>

definition periodStep ::
  "bank \<Rightarrow> string \<Rightarrow> (string \<Rightarrow> rat option) \<Rightarrow> number \<times> string \<times> rat \<Rightarrow> nat
     \<Rightarrow> number \<times> string \<times> rat" where
  "periodStep s monthStr dailyBalances st day =
     (case st of
        (totalInterest, currentPeriodStart, currentRate) \<Rightarrow>
          (let rate = getInterestRate s (dateKey monthStr day)
           in if rate \<noteq> currentRate then
                (let periodDays = map_option (\<lambda>p. int day - int p)
                                    (parseInt (substring 6 8 currentPeriodStart));
                     periodBalance = dailyBalances currentPeriodStart
                 in ((if currentRate > 0
                      then addPeriodInterest totalInterest periodBalance currentRate periodDays
                      else totalInterest),
                     dateKey monthStr day, rate))
              else st))"

definition calculateMonthlyInterest ::
  "bank \<Rightarrow> string \<Rightarrow> string \<Rightarrow> rat \<Rightarrow> error + (number \<times> bank)" where
  "calculateMonthlyInterest s account monthStr endBalance =
     (if interestRules s = [] then Inr (Num 0, s)
      else
        (case accounts s account of
           None \<Rightarrow> Inl TypeError
         | Some acc \<Rightarrow>
             (let daysInMonth =
                    (case (parseInt (substring 0 4 monthStr), parseInt (substring 4 6 monthStr)) of
                       (Some year, Some mm) \<Rightarrow>
                         Some (nat (getDate (newDate (int year) (int mm - 1 + 1) 0)))
                     | _ \<Rightarrow> None);
                  allTransactions = sortBy byDate (acc_transactions acc);
                  s' = s\<lparr>accounts :=
                         (accounts s)(account \<mapsto> acc\<lparr>acc_transactions := allTransactions\<rparr>)\<rparr>;
                  transactionsBefore =
                    filter (\<lambda>txn. txn_date txn < monthStr @ ''01'') allTransactions;
                  openingBalance = balanceAfter 0 transactionsBefore;
                  dailyBalances0 =
                    setDays monthStr (daysFrom 1 daysInMonth) openingBalance Map.empty;
                  monthTransactions =
                    filter (\<lambda>txn. startsWith (txn_date txn) monthStr) allTransactions;
                  dailyBalances =
                    snd (foldl (applyMonthTransaction monthStr daysInMonth)
                           (openingBalance, dailyBalances0) monthTransactions);
                  st = foldl (periodStep s monthStr dailyBalances)
                         (Num 0, monthStr @ ''01'', getInterestRate s (monthStr @ ''01''))
                         (daysFrom 2 daysInMonth)
              in case st of
                   (totalInterest, currentPeriodStart, currentRate) \<Rightarrow>
                     (let finalPeriodDays =
                            (case (daysInMonth, parseInt (substring 6 8 currentPeriodStart)) of
                               (Some n, Some p) \<Rightarrow> Some (int n - int p + 1)
                             | _ \<Rightarrow> None);
                          finalPeriodBalance = dailyBalances currentPeriodStart;
                          total = (if currentRate > 0
                                   then addPeriodInterest totalInterest finalPeriodBalance
                                          currentRate finalPeriodDays
                                   else totalInterest)
                      in Inr ((case total of Num t \<Rightarrow> Num (toFixedValue t) | NaN \<Rightarrow> NaN), s')))))"

text \<open>\<^verbatim>\<open>printStatement\<close> from line 295, on the two parts of the input line.\<close>

definition printStatement ::
  "bank \<Rightarrow> string \<Rightarrow> string \<Rightarrow> (error + statement_line list) \<times> bank" where
  "printStatement s account monthStr =
     (case accounts s account of
        None \<Rightarrow> (Inl AccountNotFound, s)
      | Some acc \<Rightarrow>
          if length monthStr \<noteq> 6 \<or> isNaN monthStr then (Inl InvalidMonth, s)
          else
            (let year = substring 0 4 monthStr;
                 month = substring 4 6 monthStr;
                 accountTransactions =
                   sortBy byDate
                     (filter (\<lambda>txn. startsWith (txn_date txn) (year @ month))
                        (acc_transactions acc))
             in if accountTransactions = [] then (Inl NoActivity, s)
                else
                  (let transactionsBefore =
                         sortBy byDate
                           (filter (\<lambda>txn. txn_date txn < year @ month @ ''01'')
                              (acc_transactions acc));
                       balance0 = balanceAfter 0 transactionsBefore;
                       lines = statementLines balance0 accountTransactions;
                       balance = balanceAfter balance0 accountTransactions
                   in case calculateMonthlyInterest s account (year @ month) balance of
                        Inl e \<Rightarrow> (Inl e, s)
                      | Inr (interest, s') \<Rightarrow>
                          (case interest of
                             Num i \<Rightarrow>
                               if i > 0 then
                                 (Inr (lines @
                                    [\<lparr>line_date = year @ month @ ''30'', line_txnId = [],
                                      line_type = ''I'', line_amount = toFixed i,
                                      line_balance = toFixed (balance + i)\<rparr>]), s')
                               else (Inr lines, s')
                           | NaN \<Rightarrow> (Inr lines, s')))))"

subsection \<open>Sessions\<close>

text \<open>One choice of the main menu with the line entered after it, as \<^verbatim>\<open>promptUser\<close>
  dispatches it; a session is a list of them, run from the constructor's state.\<close>

datatype command =
    CmdT string string string string "rat option"
  | CmdI string string "rat option"
  | CmdP string string

fun promptUser :: "bank \<Rightarrow> command \<Rightarrow> bank" where
  "promptUser s (CmdT dateStr account typeStr amountStr parsedAmount) =
     snd (inputTransaction s dateStr account typeStr amountStr parsedAmount)"
| "promptUser s (CmdI dateStr ruleId parsedRate) =
     snd (defineInterestRule s dateStr ruleId parsedRate)"
| "promptUser s (CmdP account monthStr) = snd (printStatement s account monthStr)"

definition run :: "command list \<Rightarrow> bank" where
  "run cmds = foldl promptUser BankAccountSystem cmds"

section \<open>The notions of the specification\<close>

text \<open>
  These definitions follow the words of the specification, not the code; the theorems
  below compare the methods with them.
\<close>

text \<open>Chronological order: by date ascending, transactions of one date in the order
  they were recorded.\<close>

definition chronological :: "transaction list \<Rightarrow> transaction list" where
  "chronological txns = sort_key txn_date txns"

text \<open>The balance as of a date: the fold of all transactions up to and including that
  date, in chronological order.\<close>

definition balance_as_of :: "transaction list \<Rightarrow> string \<Rightarrow> rat" where
  "balance_as_of txns date =
     balanceAfter 0 (filter (\<lambda>txn. txn_date txn \<le> date) (chronological txns))"

text \<open>The balances after every non-empty prefix of the chronological order.\<close>

definition prefix_balances :: "transaction list \<Rightarrow> rat list" where
  "prefix_balances txns =
     map (\<lambda>k. balanceAfter 0 (take k (chronological txns))) [1..<Suc (length txns)]"

text \<open>A target month \<^verbatim>\<open>YYYYMM\<close> is one whose first day is a calendar date; its last
  day is read from the calendar.\<close>

definition isValidMonth :: "string \<Rightarrow> bool" where
  "isValidMonth monthStr = isValidDate (monthStr @ ''01'')"

definition lastDayOfMonth :: "string \<Rightarrow> nat" where
  "lastDayOfMonth monthStr =
     (case (parseInt (substring 0 4 monthStr), parseInt (substring 4 6 monthStr)) of
        (Some year, Some mm) \<Rightarrow> nat (daysIn (int year) (int mm - 1))
      | _ \<Rightarrow> 0)"

text \<open>The maximal runs of consecutive days on which a function of the day has one
  value.\<close>

function rate_runs :: "(nat \<Rightarrow> rat) \<Rightarrow> nat list \<Rightarrow> nat list list" where
  "rate_runs f [] = []"
| "rate_runs f (d # ds) =
     (d # takeWhile (\<lambda>e. f e = f d) ds) # rate_runs f (dropWhile (\<lambda>e. f e = f d) ds)"
  by pat_completeness auto
termination
  by (relation "measure (\<lambda>(f, ds). length ds)") (auto simp: length_dropWhile_le less_Suc_eq_le)

text \<open>The interest of one run: the balance of its first day, times the rate, over 100,
  times its number of days, over 365. The interest of the month is the sum over the
  runs, rounded to two decimals.\<close>

definition run_interest :: "bank \<Rightarrow> transaction list \<Rightarrow> string \<Rightarrow> nat list \<Rightarrow> rat" where
  "run_interest s txns monthStr days =
     balance_as_of txns (dateKey monthStr (hd days))
       * getInterestRate s (dateKey monthStr (hd days)) / 100 * of_nat (length days) / 365"

definition monthly_interest :: "bank \<Rightarrow> transaction list \<Rightarrow> string \<Rightarrow> rat" where
  "monthly_interest s txns monthStr =
     toFixedValue
       (sum_list (map (run_interest s txns monthStr)
          (rate_runs (\<lambda>d. getInterestRate s (dateKey monthStr d))
             [1..<Suc (lastDayOfMonth monthStr)])))"

text \<open>The identifier \<^verbatim>\<open><date>-<seq>\<close>, the sequence number written with at least two
  digits.\<close>

definition sequence_id :: "string \<Rightarrow> nat \<Rightarrow> string" where
  "sequence_id date k = date @ ''-'' @ (if k < 10 then CHR ''0'' # toString k else toString k)"

subsection \<open>Auxiliary notions of the proofs\<close>

text \<open>The number \<^verbatim>\<open>generateTransactionId\<close> gives next on a date, the transaction
  \<^verbatim>\<open>inputTransaction\<close> builds from it, and the transactions of an account, none when
  the account does not exist.\<close>

definition nextNumber :: "bank \<Rightarrow> string \<Rightarrow> nat" where
  "nextNumber s dateStr = (case runningNumbers s dateStr of None \<Rightarrow> 0 | Some k \<Rightarrow> k) + 1"

definition newTransaction :: "bank \<Rightarrow> string \<Rightarrow> string \<Rightarrow> string \<Rightarrow> rat \<Rightarrow> transaction" where
  "newTransaction s dateStr account ty amount =
     \<lparr>txn_date = dateStr, txn_account = account, txn_type = ty, txn_amount = amount,
      txn_id = dateStr @ ''-'' @ padStart 2 (CHR ''0'') (toString (nextNumber s dateStr)),
      txn_balance = 0\<rparr>"

definition transactionsOf :: "bank \<Rightarrow> string \<Rightarrow> transaction list" where
  "transactionsOf s account =
     (case accounts s account of None \<Rightarrow> [] | Some acc \<Rightarrow> acc_transactions acc)"

text \<open>The amount of a transaction with its sign: what \<^verbatim>\<open>calculateNewBalance\<close> adds.\<close>

definition signedAmount :: "transaction \<Rightarrow> rat" where
  "signedAmount txn = (if txn_type txn = ''D'' then txn_amount txn else - txn_amount txn)"

text \<open>The list \<^verbatim>\<open>defineInterestRule\<close> sorts: the rule replaces the first one of its
  date, or is pushed at the end.\<close>

definition upsertRule :: "interest_rule \<Rightarrow> interest_rule list \<Rightarrow> interest_rule list" where
  "upsertRule rule rules =
     (case findIndex (\<lambda>x. rule_date x = rule_date rule) rules of
        Some existingRuleIndex \<Rightarrow> rules[existingRuleIndex := rule]
      | None \<Rightarrow> rules @ [rule])"

text \<open>The day of the month \<^verbatim>\<open>calculateMonthlyInterest\<close> reads from the date of a
  transaction.\<close>

definition dayOf :: "transaction \<Rightarrow> nat" where
  "dayOf txn = (case parseInt (substring 6 8 (txn_date txn)) of None \<Rightarrow> 0 | Some day \<Rightarrow> day)"

text \<open>The statements of \<^verbatim>\<open>calculateMonthlyInterest\<close> after its loop over the days
  (lines 553 to 562): the interest of the final period is added.\<close>

definition finalPeriod ::
  "(string \<Rightarrow> rat option) \<Rightarrow> nat \<Rightarrow> number \<times> string \<times> rat \<Rightarrow> number" where
  "finalPeriod dailyBalances daysInMonth st =
     (case st of
        (totalInterest, currentPeriodStart, currentRate) \<Rightarrow>
          if currentRate > 0
          then addPeriodInterest totalInterest (dailyBalances currentPeriodStart) currentRate
                 (case parseInt (substring 6 8 currentPeriodStart) of
                    Some p \<Rightarrow> Some (int daysInMonth - int p + 1)
                  | None \<Rightarrow> None)
          else totalInterest)"

section \<open>Strings of digits\<close>

lemma digit_cases: "n < 10 \<Longrightarrow> n \<in> {0, 1, 2, 3, 4, 5, 6, 7, 8, 9::nat}"
  by simp arith

lemma digitVal_digitChar: "n < 10 \<Longrightarrow> digitVal (digitChar n) = n"
  using digit_cases [of n] by (auto simp: digitVal_def digitChar_def)

lemma isDigit_digitChar: "n < 10 \<Longrightarrow> isDigit (digitChar n)"
  using digit_cases [of n] by (auto simp: isDigit_def digitChar_def)

lemma isDigit_iff: "isDigit c \<longleftrightarrow> 48 \<le> (of_char c :: nat) \<and> (of_char c :: nat) \<le> 57"
  by (simp add: isDigit_def less_eq_char_def)

lemma digitVal_less: "isDigit c \<Longrightarrow> digitVal c < 10"
  by (auto simp: isDigit_iff digitVal_def)

lemma digitChar_digitVal: "isDigit c \<Longrightarrow> digitChar (digitVal c) = c"
proof -
  assume d: "isDigit c"
  then have l: "digitVal c < 10" by (rule digitVal_less)
  have "digitVal (digitChar (digitVal c)) = digitVal c" using l by (rule digitVal_digitChar)
  then have e: "(of_char (digitChar (digitVal c)) :: nat) - 48 = of_char c - 48"
    by (simp add: digitVal_def)
  have "isDigit (digitChar (digitVal c))" using l by (rule isDigit_digitChar)
  then have "48 \<le> (of_char (digitChar (digitVal c)) :: nat)" by (simp add: isDigit_iff)
  moreover have "48 \<le> (of_char c :: nat)" using d by (simp add: isDigit_iff)
  ultimately have "(of_char (digitChar (digitVal c)) :: nat) = of_char c" using e by arith
  then show ?thesis by simp
qed

lemma digit_less_iff: "isDigit a \<Longrightarrow> isDigit b \<Longrightarrow> a < b \<longleftrightarrow> digitVal a < digitVal b"
  by (auto simp: isDigit_iff digitVal_def less_char_def)

lemma digit_eq_iff: "isDigit a \<Longrightarrow> isDigit b \<Longrightarrow> a = b \<longleftrightarrow> digitVal a = digitVal b"
  by (metis digitChar_digitVal)

lemma toString_two: "n < 100 \<Longrightarrow> padStart 2 (CHR ''0'') (toString n) = [digitChar (n div 10), digitChar (n mod 10)]"
proof (cases "n < 10")
  case True
  then show ?thesis by (simp add: toString.simps [of n] padStart_def digitChar_def)
next
  case False
  assume "n < 100"
  with False have "n div 10 < 10" by arith
  then show ?thesis using False
    by (simp add: toString.simps [of n] toString.simps [of "n div 10"] padStart_def)
qed

section \<open>Sorting\<close>

lemma insertBy_byDate: "insertBy byDate x ys = insort_key txn_date x ys"
  by (induction ys) (auto simp: localeCompare_def byDate_def)

lemma sortBy_byDate: "sortBy byDate xs = sort_key txn_date xs"
  by (induction xs) (simp_all add: sortBy_def insertBy_byDate)

lemma insertBy_byRuleDate: "insertBy byRuleDate x ys = insort_key rule_date x ys"
  by (induction ys) (auto simp: localeCompare_def byRuleDate_def)

lemma sortBy_byRuleDate: "sortBy byRuleDate xs = sort_key rule_date xs"
  by (induction xs) (simp_all add: sortBy_def insertBy_byRuleDate)

section \<open>Recording a transaction\<close>

lemmas recordTransaction_defs =
  recordTransaction_def generateTransactionId_def displayAccountStatement_def Let_def
  newTransaction_def nextNumber_def transactionsOf_def

lemma recordTransaction_transactions:
  "transactions (snd (recordTransaction s d a ty amt)) =
     transactions s @ [newTransaction s d a ty amt]"
  by (simp add: recordTransaction_defs)

lemma recordTransaction_runningNumbers:
  "runningNumbers (snd (recordTransaction s d a ty amt)) =
     (runningNumbers s)(d \<mapsto> nextNumber s d)"
  by (simp add: recordTransaction_defs)


lemma recordTransaction_accounts:
  "accounts (snd (recordTransaction s d a ty amt)) =
     (accounts s)(a \<mapsto>
        (case accounts s a of
           None \<Rightarrow> \<lparr>createdDate = d, acc_transactions = []\<rparr>
         | Some acc \<Rightarrow> acc)
        \<lparr>acc_transactions :=
           sort_key txn_date (transactionsOf s a @ [newTransaction s d a ty amt])\<rparr>)"
  by (cases "accounts s a") (simp_all add: recordTransaction_defs sortBy_byDate)

lemma recordTransaction_transactionsOf:
  "transactionsOf (snd (recordTransaction s d a ty amt)) a' =
     (if a' = a then sort_key txn_date (transactionsOf s a @ [newTransaction s d a ty amt])
      else transactionsOf s a')"
  by (simp add: transactionsOf_def [of "snd (recordTransaction s d a ty amt)"]
        recordTransaction_accounts)
     (simp add: transactionsOf_def)


text \<open>An input is either rejected, and the state returned is the one given, or it passed
  every check and is recorded.\<close>

lemma inputTransaction_cases:
  "(\<exists>e. inputTransaction s d a t astr p = (Inl e, s)) \<or>
   (\<exists>amt. p = Some amt \<and> 0 < amt \<and> isValidDate d \<and> isValidAmount astr \<and>
      (toUpperCase t = ''D'' \<or>
       toUpperCase t = ''W'' \<and> (\<exists>b. getAccountBalance s a = Some b \<and> amt \<le> b)) \<and>
      inputTransaction s d a t astr p = recordTransaction s d a (toUpperCase t) amt)"
  by (cases p; cases "getAccountBalance s a") (auto simp: inputTransaction_def Let_def)


section \<open>What each method leaves unchanged\<close>

lemma defineInterestRule_frame:
  "accounts (snd (defineInterestRule s d i r)) = accounts s \<and>
   transactions (snd (defineInterestRule s d i r)) = transactions s \<and>
   runningNumbers (snd (defineInterestRule s d i r)) = runningNumbers s"
  by (cases r) (simp_all add: defineInterestRule_def Let_def)

lemma calculateMonthlyInterest_state:
  "calculateMonthlyInterest s a m b = Inr (x, s') \<Longrightarrow>
     s' = s \<or>
     (\<exists>acc. accounts s a = Some acc \<and>
        s' = s\<lparr>accounts :=
               (accounts s)(a \<mapsto> acc\<lparr>acc_transactions := sort_key txn_date (acc_transactions acc)\<rparr>)\<rparr>)"
  by (auto simp: calculateMonthlyInterest_def Let_def sortBy_byDate
           split: if_splits option.splits prod.splits)

lemma printStatement_state:
  "snd (printStatement s a m) = s \<or>
     (\<exists>acc. accounts s a = Some acc \<and>
        snd (printStatement s a m) = s\<lparr>accounts :=
               (accounts s)(a \<mapsto> acc\<lparr>acc_transactions := sort_key txn_date (acc_transactions acc)\<rparr>)\<rparr>)"
proof (cases "\<exists>x s'. calculateMonthlyInterest s a (substring 0 4 m @ substring 4 6 m)
          (balanceAfter (balanceAfter 0 (sortBy byDate
             (filter (\<lambda>txn. txn_date txn < substring 0 4 m @ substring 4 6 m @ ''01'')
                (transactionsOf s a))))
             (sortBy byDate (filter (\<lambda>txn. startsWith (txn_date txn) (substring 0 4 m @ substring 4 6 m))
                (transactionsOf s a)))) = Inr (x, s')")
  case True
  then obtain x s' where c: "calculateMonthlyInterest s a (substring 0 4 m @ substring 4 6 m)
          (balanceAfter (balanceAfter 0 (sortBy byDate
             (filter (\<lambda>txn. txn_date txn < substring 0 4 m @ substring 4 6 m @ ''01'')
                (transactionsOf s a))))
             (sortBy byDate (filter (\<lambda>txn. startsWith (txn_date txn) (substring 0 4 m @ substring 4 6 m))
                (transactionsOf s a)))) = Inr (x, s')" by blast
  from calculateMonthlyInterest_state [OF c]
  show ?thesis using c
    by (auto simp: printStatement_def Let_def transactionsOf_def split: option.splits number.splits)
next
  case False
  then show ?thesis
    by (auto simp: printStatement_def Let_def transactionsOf_def split: option.splits sum.splits)
qed

section \<open>Sequence numbers\<close>

lemma digits_value_toString: "foldl (\<lambda>n c. 10 * n + digitVal c) 0 (toString k) = k"
proof (induction k rule: toString.induct)
  case (1 n)
  show ?case
  proof (cases "n < 10")
    case True
    then show ?thesis by (simp add: toString.simps [of n] digitVal_digitChar)
  next
    case False
    with 1 have "foldl (\<lambda>n c. 10 * n + digitVal c) 0 (toString (n div 10)) = n div 10" by simp
    with False show ?thesis by (simp add: toString.simps [of n] digitVal_digitChar)
  qed
qed

lemma toString_inj: "toString j = toString k \<Longrightarrow> j = k"
  by (metis digits_value_toString)

lemma length_toString_small: "k < 10 \<Longrightarrow> length (toString k) = 1"
  by (simp add: toString.simps [of k])

lemma length_toString_large: "\<not> k < 10 \<Longrightarrow> 2 \<le> length (toString k)"
proof -
  assume "\<not> k < 10"
  moreover have "1 \<le> length (toString (k div 10))"
    by (simp add: toString.simps [of "k div 10"])
  ultimately show ?thesis by (simp add: toString.simps [of k])
qed

lemma padStart_toString:
  "padStart 2 (CHR ''0'') (toString k) = (if k < 10 then CHR ''0'' # toString k else toString k)"
proof (cases "k < 10")
  case True
  then show ?thesis by (simp add: padStart_def length_toString_small)
next
  case False
  then have "2 - length (toString k) = 0" using length_toString_large [of k] by simp
  with False show ?thesis by (simp add: padStart_def)
qed

lemma txn_id_newTransaction:
  "txn_id (newTransaction s d a ty amt) = sequence_id d (nextNumber s d)"
  by (simp add: newTransaction_def sequence_id_def padStart_toString)

lemma sequence_id_inj: "sequence_id d j = sequence_id d k \<Longrightarrow> j = k"
proof -
  assume "sequence_id d j = sequence_id d k"
  then have e: "(if j < 10 then CHR ''0'' # toString j else toString j) =
             (if k < 10 then CHR ''0'' # toString k else toString k)"
    by (simp add: sequence_id_def)
  have v: "foldl (\<lambda>n c. 10 * n + digitVal c) 0 (if i < 10 then CHR ''0'' # toString i else toString i) = i" for i
  proof -
    have "digitVal (CHR ''0'') = 0" by (simp add: digitVal_def)
    then show ?thesis by (simp add: digits_value_toString)
  qed
  from v [of j] v [of k] e show ?thesis by simp
qed

lemma distinct_sequence_ids: "distinct (map (sequence_id d) [1..<Suc n])"
  by (simp add: distinct_map inj_on_def del: upt_Suc) (blast dest: sequence_id_inj)

section \<open>Sessions, one command at a time\<close>

lemma run_Nil: "run [] = BankAccountSystem"
  by (simp add: run_def)

lemma run_snoc: "run (cmds @ [c]) = promptUser (run cmds) c"
  by (simp add: run_def)

lemma printStatement_frame:
  "transactions (snd (printStatement s a m)) = transactions s \<and>
   runningNumbers (snd (printStatement s a m)) = runningNumbers s \<and>
   interestRules (snd (printStatement s a m)) = interestRules s"
  using printStatement_state [of s a m] by auto

lemma printStatement_transactionsOf:
  "transactionsOf (snd (printStatement s a m)) a' = transactionsOf s a' \<or>
   transactionsOf (snd (printStatement s a m)) a' = sort_key txn_date (transactionsOf s a')"
  using printStatement_state [of s a m] by (auto simp: transactionsOf_def)

lemma printStatement_accounts_None:
  "accounts (snd (printStatement s a m)) a' = None \<longleftrightarrow> accounts s a' = None"
  using printStatement_state [of s a m] by (auto split: if_splits)

text \<open>A command either records a transaction or leaves the list of transactions and the
  counters as they are.\<close>

lemma promptUser_cases:
  "(transactions (promptUser s c) = transactions s \<and>
    runningNumbers (promptUser s c) = runningNumbers s \<and>
    (\<forall>a. accounts (promptUser s c) a = None \<longleftrightarrow> accounts s a = None) \<and>
    (\<forall>a. transactionsOf (promptUser s c) a = transactionsOf s a \<or>
         transactionsOf (promptUser s c) a = sort_key txn_date (transactionsOf s a))) \<or>
   (\<exists>d a t astr amt.
      c = CmdT d a t astr (Some amt) \<and> 0 < amt \<and> isValidDate d \<and>
      (toUpperCase t = ''D'' \<or>
       toUpperCase t = ''W'' \<and> (\<exists>b. getAccountBalance s a = Some b \<and> amt \<le> b)) \<and>
      promptUser s c = snd (recordTransaction s d a (toUpperCase t) amt))"
proof (cases c)
  case (CmdT d a t astr p)
  from inputTransaction_cases [of s d a t astr p] show ?thesis
  proof
    assume "\<exists>e. inputTransaction s d a t astr p = (Inl e, s)"
    then have "promptUser s c = s" using CmdT by auto
    then show ?thesis by simp
  next
    assume "\<exists>amt. p = Some amt \<and> 0 < amt \<and> isValidDate d \<and> isValidAmount astr \<and>
      (toUpperCase t = ''D'' \<or>
       toUpperCase t = ''W'' \<and> (\<exists>b. getAccountBalance s a = Some b \<and> amt \<le> b)) \<and>
      inputTransaction s d a t astr p = recordTransaction s d a (toUpperCase t) amt"
    then obtain amt where "p = Some amt" "0 < amt" "isValidDate d"
      "toUpperCase t = ''D'' \<or>
       toUpperCase t = ''W'' \<and> (\<exists>b. getAccountBalance s a = Some b \<and> amt \<le> b)"
      "inputTransaction s d a t astr p = recordTransaction s d a (toUpperCase t) amt"
      by blast
    then have "c = CmdT d a t astr (Some amt) \<and> 0 < amt \<and> isValidDate d \<and>
      (toUpperCase t = ''D'' \<or>
       toUpperCase t = ''W'' \<and> (\<exists>b. getAccountBalance s a = Some b \<and> amt \<le> b)) \<and>
      promptUser s c = snd (recordTransaction s d a (toUpperCase t) amt)"
      using CmdT by simp
    then show ?thesis by blast
  qed
next
  case (CmdI d i r)
  then show ?thesis using defineInterestRule_frame [of s d i r]
    by (simp add: transactionsOf_def)
next
  case (CmdP a m)
  then show ?thesis
    using printStatement_frame [of s a m] printStatement_transactionsOf [of s a m]
      printStatement_accounts_None [of s a m]
    by simp
qed

lemma promptUser_transactions:
  "(transactions (promptUser s c) = transactions s \<and>
    runningNumbers (promptUser s c) = runningNumbers s) \<or>
   (\<exists>d a ty amt. promptUser s c = snd (recordTransaction s d a ty amt))"
  using promptUser_cases [of s c] by blast

section \<open>Transaction identifiers\<close>

lemma nextNumber_run:
  "nextNumber (run cmds) d =
     Suc (length (filter (\<lambda>t. txn_date t = d) (transactions (run cmds))))"
proof (induction cmds rule: rev_induct)
  case Nil
  show ?case by (simp add: run_Nil BankAccountSystem_def nextNumber_def)
next
  case (snoc c cmds)
  from promptUser_transactions [of "run cmds" c] show ?case
  proof (elim disjE exE conjE)
    assume "transactions (promptUser (run cmds) c) = transactions (run cmds)"
      and "runningNumbers (promptUser (run cmds) c) = runningNumbers (run cmds)"
    with snoc show ?thesis by (simp add: run_snoc nextNumber_def)
  next
    fix d0 a ty amt
    assume "promptUser (run cmds) c = snd (recordTransaction (run cmds) d0 a ty amt)"
    with snoc show ?thesis
      by (simp add: run_snoc nextNumber_def [of "snd (recordTransaction (run cmds) d0 a ty amt)"]
            recordTransaction_transactions recordTransaction_runningNumbers)
         (simp add: newTransaction_def nextNumber_def)
  qed
qed

lemma ids_run:
  "map txn_id (filter (\<lambda>t. txn_date t = d) (transactions (run cmds))) =
     map (sequence_id d) [1..<Suc (length (filter (\<lambda>t. txn_date t = d) (transactions (run cmds))))]"
proof (induction cmds rule: rev_induct)
  case Nil
  show ?case by (simp add: run_Nil BankAccountSystem_def)
next
  case (snoc c cmds)
  from promptUser_transactions [of "run cmds" c] show ?case
  proof (elim disjE exE conjE)
    assume "transactions (promptUser (run cmds) c) = transactions (run cmds)"
    with snoc show ?thesis by (simp add: run_snoc)
  next
    fix d0 a t amt
    assume r: "promptUser (run cmds) c = snd (recordTransaction (run cmds) d0 a t amt)"
    show ?thesis
    proof (cases "d0 = d")
      case True
      have "txn_id (newTransaction (run cmds) d a t amt) =
              sequence_id d (Suc (length (filter (\<lambda>t. txn_date t = d) (transactions (run cmds)))))"
        by (simp add: txn_id_newTransaction nextNumber_run)
      moreover have "txn_date (newTransaction (run cmds) d a t amt) = d"
        by (simp add: newTransaction_def)
      ultimately show ?thesis using snoc r True
        by (simp add: run_snoc recordTransaction_transactions)
    next
      case False
      then have "txn_date (newTransaction (run cmds) d0 a t amt) \<noteq> d"
        by (simp add: newTransaction_def)
      then show ?thesis using snoc r
        by (simp add: run_snoc recordTransaction_transactions)
    qed
  qed
qed

section \<open>Accounts and their transactions\<close>

lemma balanceAfter_sum: "balanceAfter b txns = b + sum_list (map signedAmount txns)"
  by (induction txns arbitrary: b)
     (simp_all add: balanceAfter_def calculateNewBalance_def signedAmount_def)

lemma balanceAfter_mset:
  "mset xs = mset ys \<Longrightarrow> balanceAfter b xs = balanceAfter b ys"
proof -
  assume "mset xs = mset ys"
  then have "sum_mset (image_mset signedAmount (mset xs)) = sum_mset (image_mset signedAmount (mset ys))"
    by simp
  then have "sum_list (map signedAmount xs) = sum_list (map signedAmount ys)"
    by (metis mset_map sum_mset_sum_list)
  then show ?thesis by (simp add: balanceAfter_sum)
qed

lemma balanceAfter_sort: "balanceAfter b (sort_key txn_date xs) = balanceAfter b xs"
  by (rule balanceAfter_mset) simp





text \<open>After every command the balance of every account, as \<^verbatim>\<open>getAccountBalance\<close>
  computes it, is not negative.\<close>

lemma balance_run_nonneg: "0 \<le> balanceAfter 0 (transactionsOf (run cmds) a)"
proof (induction cmds rule: rev_induct)
  case Nil
  show ?case by (simp add: run_Nil BankAccountSystem_def transactionsOf_def balanceAfter_def)
next
  case (snoc c cmds)
  from promptUser_cases [of "run cmds" c] show ?case
  proof
    assume u: "transactions (promptUser (run cmds) c) = transactions (run cmds) \<and>
      runningNumbers (promptUser (run cmds) c) = runningNumbers (run cmds) \<and>
      (\<forall>a. accounts (promptUser (run cmds) c) a = None \<longleftrightarrow> accounts (run cmds) a = None) \<and>
      (\<forall>a. transactionsOf (promptUser (run cmds) c) a = transactionsOf (run cmds) a \<or>
         transactionsOf (promptUser (run cmds) c) a = sort_key txn_date (transactionsOf (run cmds) a))"
    then have "balanceAfter 0 (transactionsOf (promptUser (run cmds) c) a) =
        balanceAfter 0 (transactionsOf (run cmds) a)"
      by (metis balanceAfter_sort)
    with snoc show ?thesis by (simp add: run_snoc)
  next
    assume "\<exists>d a t astr amt.
      c = CmdT d a t astr (Some amt) \<and> 0 < amt \<and> isValidDate d \<and>
      (toUpperCase t = ''D'' \<or>
       toUpperCase t = ''W'' \<and> (\<exists>b. getAccountBalance (run cmds) a = Some b \<and> amt \<le> b)) \<and>
      promptUser (run cmds) c = snd (recordTransaction (run cmds) d a (toUpperCase t) amt)"
    then obtain d a0 ty amt where
      r: "promptUser (run cmds) c = snd (recordTransaction (run cmds) d a0 (toUpperCase ty) amt)"
      and v: "0 < amt"
        "toUpperCase ty = ''D'' \<or>
         toUpperCase ty = ''W'' \<and> (\<exists>b. getAccountBalance (run cmds) a0 = Some b \<and> amt \<le> b)"
      by blast
    show ?thesis
    proof (cases "a = a0")
      case False
      with snoc r show ?thesis by (simp add: run_snoc recordTransaction_transactionsOf)
    next
      case True
      have e: "balanceAfter 0 (transactionsOf (run (cmds @ [c])) a) =
          balanceAfter 0 (transactionsOf (run cmds) a) +
            signedAmount (newTransaction (run cmds) d a0 (toUpperCase ty) amt)"
        using r True
        by (simp add: run_snoc recordTransaction_transactionsOf balanceAfter_sort)
           (simp add: balanceAfter_sum)
      from v(2) show ?thesis
      proof
        assume "toUpperCase ty = ''D''"
        then have "signedAmount (newTransaction (run cmds) d a0 (toUpperCase ty) amt) = amt"
          by (simp add: signedAmount_def newTransaction_def)
        with e v(1) snoc show ?thesis by simp
      next
        assume w: "toUpperCase ty = ''W'' \<and>
          (\<exists>b. getAccountBalance (run cmds) a0 = Some b \<and> amt \<le> b)"
        then have "signedAmount (newTransaction (run cmds) d a0 (toUpperCase ty) amt) = - amt"
          by (simp add: signedAmount_def newTransaction_def)
        moreover from w have "amt \<le> balanceAfter 0 (transactionsOf (run cmds) a0)"
          by (auto simp: getAccountBalance_def transactionsOf_def split: option.splits)
        ultimately show ?thesis using e True by simp
      qed
    qed
  qed
qed

section \<open>Evaluating the methods on given inputs\<close>

lemmas date_eval =
  isValidDate_def isNaN_def isDigit_def parseInt_def substring_def digitVal_def
  newDate_def getDate_def getMonth_def getFullYear_def carryDays.simps daysIn_def
  isLeapYear_def Let_def

lemma floor_rat_numeral: "\<lfloor>(numeral a :: rat) / numeral b\<rfloor> = numeral a div numeral b"
  by (metis floor_divide_of_int_eq of_int_numeral)

lemma inputTransaction_deposit:
  "isValidDate d \<Longrightarrow> toUpperCase t = ''D'' \<Longrightarrow> 0 < amt \<Longrightarrow> isValidAmount astr \<Longrightarrow>
     inputTransaction s d a t astr (Some amt) = recordTransaction s d a ''D'' amt"
  by (simp add: inputTransaction_def)

lemma inputTransaction_withdrawal:
  "isValidDate d \<Longrightarrow> toUpperCase t = ''W'' \<Longrightarrow> 0 < amt \<Longrightarrow> isValidAmount astr \<Longrightarrow>
     accounts s a = Some acc \<Longrightarrow> amt \<le> balanceAfter 0 (acc_transactions acc) \<Longrightarrow>
     inputTransaction s d a t astr (Some amt) = recordTransaction s d a ''W'' amt"
  by (simp add: inputTransaction_def getAccountBalance_def)

lemma valid_20230505: "isValidDate ''20230505''"
  by (simp add: date_eval)

lemma valid_20230601: "isValidDate ''20230601''"
  by (simp add: date_eval)

lemma valid_20230610: "isValidDate ''20230610''"
  by (simp add: date_eval)

lemma upper_D: "toUpperCase ''D'' = ''D''"
  by (simp add: toUpperCase_def)

lemma upper_W: "toUpperCase ''W'' = ''W''"
  by (simp add: toUpperCase_def)

lemma upper_d: "toUpperCase ''d'' = ''D''"
  by (simp add: toUpperCase_def char_of_eq_iff)

lemma amount_100_00: "isValidAmount ''100.00''"
  by (simp add: isValidAmount_def)

lemma amount_50_00: "isValidAmount ''50.00''"
  by (simp add: isValidAmount_def)


lemma sequence_id_1: "sequence_id d (Suc 0) = d @ ''-01''"
  by (simp add: sequence_id_def toString.simps [of "Suc 0"] digitChar_def)

lemma sequence_id_2: "sequence_id d 2 = d @ ''-02''"
  by (simp add: sequence_id_def toString.simps [of 2] digitChar_def)

lemma sequence_id_3: "sequence_id d 3 = d @ ''-03''"
  by (simp add: sequence_id_def toString.simps [of 3] digitChar_def)

section \<open>Identifiers, date by date\<close>

text \<open>
  Claim C3. In every session and for every date, the identifiers of the transactions of
  that date, read in the order they were recorded and whatever their accounts, are
  \<open>date-01\<close>, \<open>date-02\<close>, ..., without a gap and without a repetition; and an input
  for that date either leaves the list of transactions as it is or appends one
  transaction, whose identifier carries the next number of the date.
\<close>

theorem transaction_ids_per_date:
  "map txn_id (filter (\<lambda>x. txn_date x = d) (transactions (run cmds))) =
     map (sequence_id d)
       [1..<Suc (length (filter (\<lambda>x. txn_date x = d) (transactions (run cmds))))] \<and>
   distinct (map txn_id (filter (\<lambda>x. txn_date x = d) (transactions (run cmds)))) \<and>
   (transactions (snd (inputTransaction (run cmds) d a t astr p)) = transactions (run cmds) \<or>
    (\<exists>txn. transactions (snd (inputTransaction (run cmds) d a t astr p)) =
              transactions (run cmds) @ [txn] \<and>
           txn_date txn = d \<and> txn_account txn = a \<and>
           txn_id txn =
             sequence_id d
               (Suc (length (filter (\<lambda>x. txn_date x = d) (transactions (run cmds)))))))"
proof (intro conjI)
  show ids: "map txn_id (filter (\<lambda>x. txn_date x = d) (transactions (run cmds))) =
     map (sequence_id d)
       [1..<Suc (length (filter (\<lambda>x. txn_date x = d) (transactions (run cmds))))]"
    by (rule ids_run)
  show "distinct (map txn_id (filter (\<lambda>x. txn_date x = d) (transactions (run cmds))))"
    by (simp only: ids distinct_sequence_ids)
  from inputTransaction_cases [of "run cmds" d a t astr p]
  show "transactions (snd (inputTransaction (run cmds) d a t astr p)) = transactions (run cmds) \<or>
    (\<exists>txn. transactions (snd (inputTransaction (run cmds) d a t astr p)) =
              transactions (run cmds) @ [txn] \<and>
           txn_date txn = d \<and> txn_account txn = a \<and>
           txn_id txn =
             sequence_id d
               (Suc (length (filter (\<lambda>x. txn_date x = d) (transactions (run cmds))))))"
  proof
    assume "\<exists>e. inputTransaction (run cmds) d a t astr p = (Inl e, run cmds)"
    then show ?thesis by auto
  next
    assume "\<exists>amt. p = Some amt \<and> 0 < amt \<and> isValidDate d \<and> isValidAmount astr \<and>
      (toUpperCase t = ''D'' \<or>
       toUpperCase t = ''W'' \<and> (\<exists>b. getAccountBalance (run cmds) a = Some b \<and> amt \<le> b)) \<and>
      inputTransaction (run cmds) d a t astr p = recordTransaction (run cmds) d a (toUpperCase t) amt"
    then obtain amt where
      r: "inputTransaction (run cmds) d a t astr p = recordTransaction (run cmds) d a (toUpperCase t) amt"
      by blast
    have "transactions (snd (inputTransaction (run cmds) d a t astr p)) =
            transactions (run cmds) @ [newTransaction (run cmds) d a (toUpperCase t) amt]"
      by (simp add: r recordTransaction_transactions)
    moreover have "txn_date (newTransaction (run cmds) d a (toUpperCase t) amt) = d"
      and "txn_account (newTransaction (run cmds) d a (toUpperCase t) amt) = a"
      by (simp_all add: newTransaction_def)
    moreover have "txn_id (newTransaction (run cmds) d a (toUpperCase t) amt) =
        sequence_id d (Suc (length (filter (\<lambda>x. txn_date x = d) (transactions (run cmds)))))"
      by (simp add: txn_id_newTransaction nextNumber_run)
    ultimately show ?thesis by blast
  qed
qed

text \<open>Two accounts on one date share the numbers: the first deposit is \<open>-01\<close>, the
  deposit on the other account \<open>-02\<close>, and a further input on that date gets \<open>-03\<close>.\<close>

lemma two_accounts_transactions:
  "map txn_date
     (transactions (run [CmdT ''20230505'' ''AC001'' ''D'' ''100.00'' (Some 100),
                         CmdT ''20230505'' ''AC002'' ''d'' ''50.00'' (Some 50)])) =
   [''20230505'', ''20230505'']"
  by (simp add: run_def inputTransaction_deposit valid_20230505 upper_D upper_d amount_100_00
        amount_50_00 recordTransaction_transactions newTransaction_def BankAccountSystem_def)

theorem transaction_ids_per_date_witness:
  "map txn_id (filter (\<lambda>x. txn_date x = ''20230505'')
     (transactions (run [CmdT ''20230505'' ''AC001'' ''D'' ''100.00'' (Some 100),
                         CmdT ''20230505'' ''AC002'' ''d'' ''50.00'' (Some 50)]))) =
   [''20230505-01'', ''20230505-02'']"
proof -
  let ?cmds = "[CmdT ''20230505'' ''AC001'' ''D'' ''100.00'' (Some 100),
                CmdT ''20230505'' ''AC002'' ''d'' ''50.00'' (Some 50)]"
  have "map txn_date (transactions (run ?cmds)) = [''20230505'', ''20230505'']"
    by (rule two_accounts_transactions)
  then have "filter (\<lambda>x. txn_date x = ''20230505'') (transactions (run ?cmds)) =
      transactions (run ?cmds) \<and> length (transactions (run ?cmds)) = 2"
    by (auto simp: map_eq_Cons_conv)
  then have len: "length (filter (\<lambda>x. txn_date x = ''20230505'') (transactions (run ?cmds))) = 2"
    by simp
  from transaction_ids_per_date [of "''20230505''" ?cmds]
  have "map txn_id (filter (\<lambda>x. txn_date x = ''20230505'') (transactions (run ?cmds))) =
     map (sequence_id ''20230505'') [1..<Suc 2]"
    by (simp only: len)
  moreover have "[1..<Suc 2] = [Suc 0, 2]"
    by (simp add: upt_rec)
  ultimately show ?thesis
    by (simp add: sequence_id_1 sequence_id_2)
qed

section \<open>Rejected withdrawals\<close>

lemma getAccountBalance_transactionsOf:
  "accounts s a \<noteq> None \<Longrightarrow> getAccountBalance s a = Some (balanceAfter 0 (transactionsOf s a))"
  by (auto simp: getAccountBalance_def transactionsOf_def)

lemma inputTransaction_withdrawal_accepted:
  "isValidDate d \<Longrightarrow> toUpperCase t = ''W'' \<Longrightarrow> 0 < amt \<Longrightarrow> isValidAmount astr \<Longrightarrow>
     accounts s a \<noteq> None \<Longrightarrow> amt \<le> balanceAfter 0 (transactionsOf s a) \<Longrightarrow>
     inputTransaction s d a t astr (Some amt) = recordTransaction s d a ''W'' amt"
  by (simp add: inputTransaction_def getAccountBalance_transactionsOf)




lemma recordTransaction_opened: "accounts (snd (recordTransaction s d a ty amt)) a \<noteq> None"
  by (simp add: recordTransaction_accounts)

lemma recordTransaction_balance:
  "balanceAfter 0 (transactionsOf (snd (recordTransaction s d a ty amt)) a) =
     balanceAfter 0 (transactionsOf s a) + (if ty = ''D'' then amt else - amt)"
  by (simp add: recordTransaction_transactionsOf balanceAfter_sort)
     (simp add: balanceAfter_sum signedAmount_def newTransaction_def)

lemma BankAccountSystem_transactionsOf: "transactionsOf BankAccountSystem a = []"
  by (simp add: transactionsOf_def BankAccountSystem_def)

lemma balanceAfter_Nil: "balanceAfter b [] = b"
  by (simp add: balanceAfter_def)






section \<open>The rate schedule\<close>







lemma defineInterestRule_accepted:
  "isValidDate d \<Longrightarrow> 0 < r \<Longrightarrow> r < 100 \<Longrightarrow>
     defineInterestRule s d i (Some r) =
       (Inr (sort_key rule_date
               (upsertRule \<lparr>rule_date = d, rule_id = i, rule_rate = r\<rparr> (interestRules s))),
        s\<lparr>interestRules :=
            sort_key rule_date
              (upsertRule \<lparr>rule_date = d, rule_id = i, rule_rate = r\<rparr> (interestRules s))\<rparr>)"
  by (simp add: defineInterestRule_def upsertRule_def Let_def sortBy_byRuleDate)









section \<open>Statements\<close>

lemma year_month: "length m = 6 \<Longrightarrow> substring 0 4 m @ substring 4 6 m = m"
proof -
  assume "length m = 6"
  then have "take 2 (drop 4 m) = drop 4 m" by simp
  then show ?thesis by (simp add: substring_def)
qed

lemma sortBy_Nil: "sortBy cmp [] = []"
  by (simp add: sortBy_def)

text \<open>
  Claim C9. For an existing account and a target month of six digits in which the
  account has no transaction, the statement fails with \<open>NoActivity\<close>: no lines are
  returned and the state is left as it is, whatever the interest rules are.
\<close>

theorem no_activity:
  assumes "accounts s a = Some acc"
    and "length m = 6" and "\<not> isNaN m"
    and "\<forall>x\<in>set (acc_transactions acc). \<not> startsWith (txn_date x) m"
  shows "printStatement s a m = (Inl NoActivity, s)"
proof -
  from assms(4) have "filter (\<lambda>txn. startsWith (txn_date txn) m) (acc_transactions acc) = []"
    by simp
  with assms(1-3) show ?thesis
    by (simp add: printStatement_def year_month Let_def sortBy_Nil)
qed

text \<open>Scenario F: a deposit in May, a rule from January, the statement of June.\<close>

lemma valid_20230520: "isValidDate ''20230520''"
  by (simp add: date_eval)

lemma valid_20230101: "isValidDate ''20230101''"
  by (simp add: date_eval)

lemma amount_1000_00: "isValidAmount ''1000.00''"
  by (simp add: isValidAmount_def)

lemma may_deposit_session:
  "run [CmdT ''20230520'' ''AC001'' ''D'' ''1000.00'' (Some 1000),
        CmdI ''20230101'' ''RULE01'' (Some 1)] =
   \<lparr>accounts = [''AC001'' \<mapsto> \<lparr>createdDate = ''20230520'', acc_transactions =
        [\<lparr>txn_date = ''20230520'', txn_account = ''AC001'', txn_type = ''D'',
          txn_amount = 1000, txn_id = ''20230520-01'', txn_balance = 0\<rparr>]\<rparr>],
     transactions =
        [\<lparr>txn_date = ''20230520'', txn_account = ''AC001'', txn_type = ''D'',
          txn_amount = 1000, txn_id = ''20230520-01'', txn_balance = 0\<rparr>],
     interestRules = [\<lparr>rule_date = ''20230101'', rule_id = ''RULE01'', rule_rate = 1\<rparr>],
     runningNumbers = [''20230520'' \<mapsto> 1]\<rparr>"
  by (simp add: run_def inputTransaction_deposit valid_20230520 upper_D amount_1000_00
        defineInterestRule_accepted valid_20230101 upsertRule_def
        recordTransaction_defs BankAccountSystem_def sortBy_def
        toString.simps [of "Suc 0"] digitChar_def padStart_def)

theorem no_activity_witness:
  "interestRules (run [CmdT ''20230520'' ''AC001'' ''D'' ''1000.00'' (Some 1000),
        CmdI ''20230101'' ''RULE01'' (Some 1)]) \<noteq> [] \<and>
   printStatement
     (run [CmdT ''20230520'' ''AC001'' ''D'' ''1000.00'' (Some 1000),
           CmdI ''20230101'' ''RULE01'' (Some 1)]) ''AC001'' ''202306'' =
     (Inl NoActivity,
      run [CmdT ''20230520'' ''AC001'' ''D'' ''1000.00'' (Some 1000),
           CmdI ''20230101'' ''RULE01'' (Some 1)])"
proof -
  let ?s = "run [CmdT ''20230520'' ''AC001'' ''D'' ''1000.00'' (Some 1000),
           CmdI ''20230101'' ''RULE01'' (Some 1)]"
  let ?acc = "\<lparr>createdDate = ''20230520'', acc_transactions =
        [\<lparr>txn_date = ''20230520'', txn_account = ''AC001'', txn_type = ''D'',
          txn_amount = 1000, txn_id = ''20230520-01'', txn_balance = 0\<rparr>]\<rparr>"
  have a: "accounts ?s ''AC001'' = Some ?acc" by (simp add: may_deposit_session)
  have n: "\<not> isNaN ''202306''" by (simp add: isNaN_def isDigit_def)
  have f: "\<forall>x\<in>set (acc_transactions ?acc). \<not> startsWith (txn_date x) ''202306''"
    by (simp add: startsWith_def)
  have "printStatement ?s ''AC001'' ''202306'' = (Inl NoActivity, ?s)"
    using a _ n f by (rule no_activity) simp
  moreover have "interestRules ?s \<noteq> []" by (simp add: may_deposit_session)
  ultimately show ?thesis by simp
qed

text \<open>
  Claim C10. The monthly interest does not depend on the balance passed as
  \<^verbatim>\<open>endBalance\<close>: the method never reads it.
\<close>

theorem interest_ignores_endBalance:
  "calculateMonthlyInterest s a m b1 = calculateMonthlyInterest s a m b2"
  by (simp add: calculateMonthlyInterest_def)

theorem interest_ignores_endBalance_witness:
  "calculateMonthlyInterest
     (run [CmdT ''20230520'' ''AC001'' ''D'' ''1000.00'' (Some 1000),
           CmdI ''20230101'' ''RULE01'' (Some 1)]) ''AC001'' ''202306'' 0 =
   calculateMonthlyInterest
     (run [CmdT ''20230520'' ''AC001'' ''D'' ''1000.00'' (Some 1000),
           CmdI ''20230101'' ''RULE01'' (Some 1)]) ''AC001'' ''202306'' 1000"
  by (rule interest_ignores_endBalance)

section \<open>A withdrawal dated before the deposit\<close>

lemma toFixed_100: "toFixed 100 = ''100.00''"
  by (simp add: toFixed_def toFixedCents_def floor_rat_numeral toString.simps digitChar_def
        padStart_def Let_def)

lemma toFixed_minus_100: "toFixed (- 100) = ''-100.00''"
  by (simp add: toFixed_def toFixedCents_def floor_rat_numeral toString.simps digitChar_def
        padStart_def Let_def)

lemma toFixed_0: "toFixed 0 = ''0.00''"
  by (simp add: toFixed_def toFixedCents_def toString.simps digitChar_def padStart_def Let_def)

lemma backdated_session:
  "run [CmdT ''20230610'' ''AC001'' ''D'' ''100.00'' (Some 100),
        CmdT ''20230601'' ''AC001'' ''W'' ''100.00'' (Some 100)] =
   \<lparr>accounts = [''AC001'' \<mapsto> \<lparr>createdDate = ''20230610'', acc_transactions =
        [\<lparr>txn_date = ''20230601'', txn_account = ''AC001'', txn_type = ''W'',
          txn_amount = 100, txn_id = ''20230601-01'', txn_balance = 0\<rparr>,
         \<lparr>txn_date = ''20230610'', txn_account = ''AC001'', txn_type = ''D'',
          txn_amount = 100, txn_id = ''20230610-01'', txn_balance = 0\<rparr>]\<rparr>],
     transactions =
        [\<lparr>txn_date = ''20230610'', txn_account = ''AC001'', txn_type = ''D'',
          txn_amount = 100, txn_id = ''20230610-01'', txn_balance = 0\<rparr>,
         \<lparr>txn_date = ''20230601'', txn_account = ''AC001'', txn_type = ''W'',
          txn_amount = 100, txn_id = ''20230601-01'', txn_balance = 0\<rparr>],
     interestRules = [],
     runningNumbers = [''20230610'' \<mapsto> 1, ''20230601'' \<mapsto> 1]\<rparr>"
proof -
  let ?s1 = "snd (recordTransaction BankAccountSystem ''20230610'' ''AC001'' ''D'' 100)"
  have s1: "promptUser BankAccountSystem (CmdT ''20230610'' ''AC001'' ''D'' ''100.00'' (Some 100)) = ?s1"
    by (simp add: inputTransaction_deposit valid_20230610 upper_D amount_100_00)
  have b1: "balanceAfter 0 (transactionsOf ?s1 ''AC001'') = 100"
    by (simp add: recordTransaction_balance BankAccountSystem_transactionsOf balanceAfter_Nil)
  have s2: "promptUser ?s1 (CmdT ''20230601'' ''AC001'' ''W'' ''100.00'' (Some 100)) =
      snd (recordTransaction ?s1 ''20230601'' ''AC001'' ''W'' 100)"
    by (simp add: inputTransaction_withdrawal_accepted valid_20230601 upper_W amount_100_00
          recordTransaction_opened b1)
  have "run [CmdT ''20230610'' ''AC001'' ''D'' ''100.00'' (Some 100),
        CmdT ''20230601'' ''AC001'' ''W'' ''100.00'' (Some 100)] =
      snd (recordTransaction ?s1 ''20230601'' ''AC001'' ''W'' 100)"
    by (simp only: run_def foldl.simps s1 s2)
  also have "\<dots> = \<lparr>accounts = [''AC001'' \<mapsto> \<lparr>createdDate = ''20230610'', acc_transactions =
        [\<lparr>txn_date = ''20230601'', txn_account = ''AC001'', txn_type = ''W'',
          txn_amount = 100, txn_id = ''20230601-01'', txn_balance = 0\<rparr>,
         \<lparr>txn_date = ''20230610'', txn_account = ''AC001'', txn_type = ''D'',
          txn_amount = 100, txn_id = ''20230610-01'', txn_balance = 0\<rparr>]\<rparr>],
     transactions =
        [\<lparr>txn_date = ''20230610'', txn_account = ''AC001'', txn_type = ''D'',
          txn_amount = 100, txn_id = ''20230610-01'', txn_balance = 0\<rparr>,
         \<lparr>txn_date = ''20230601'', txn_account = ''AC001'', txn_type = ''W'',
          txn_amount = 100, txn_id = ''20230601-01'', txn_balance = 0\<rparr>],
     interestRules = [],
     runningNumbers = [''20230610'' \<mapsto> 1, ''20230601'' \<mapsto> 1]\<rparr>"
    by (simp add: recordTransaction_defs BankAccountSystem_def sortBy_def byDate_def
          localeCompare_def toString.simps [of "Suc 0"] digitChar_def padStart_def)
  finally show ?thesis .
qed

text \<open>
  Claim C2 fails on the code. A deposit of 100.00 dated 20230610 and then a withdrawal of
  100.00 dated 20230601 are both accepted, since the withdrawal is checked against the
  balance of all transactions whatever their dates. In chronological order the
  withdrawal comes first: the balances after the prefixes are -100 and 0, and the
  statement of June prints the balance \<open>-100.00\<close>.
\<close>

theorem backdated_withdrawal_negative_prefix:
  "map txn_id (transactions
       (run [CmdT ''20230610'' ''AC001'' ''D'' ''100.00'' (Some 100),
             CmdT ''20230601'' ''AC001'' ''W'' ''100.00'' (Some 100)])) =
     [''20230610-01'', ''20230601-01''] \<and>
   prefix_balances (transactionsOf
       (run [CmdT ''20230610'' ''AC001'' ''D'' ''100.00'' (Some 100),
             CmdT ''20230601'' ''AC001'' ''W'' ''100.00'' (Some 100)]) ''AC001'') =
     [- 100, 0] \<and>
   fst (printStatement
       (run [CmdT ''20230610'' ''AC001'' ''D'' ''100.00'' (Some 100),
             CmdT ''20230601'' ''AC001'' ''W'' ''100.00'' (Some 100)]) ''AC001'' ''202306'') =
     Inr [\<lparr>line_date = ''20230601'', line_txnId = ''20230601-01'', line_type = ''W'',
            line_amount = ''100.00'', line_balance = ''-100.00''\<rparr>,
          \<lparr>line_date = ''20230610'', line_txnId = ''20230610-01'', line_type = ''D'',
            line_amount = ''100.00'', line_balance = ''0.00''\<rparr>]"
proof (intro conjI)
  show "map txn_id (transactions
       (run [CmdT ''20230610'' ''AC001'' ''D'' ''100.00'' (Some 100),
             CmdT ''20230601'' ''AC001'' ''W'' ''100.00'' (Some 100)])) =
     [''20230610-01'', ''20230601-01'']"
    by (simp add: backdated_session)
  show "prefix_balances (transactionsOf
       (run [CmdT ''20230610'' ''AC001'' ''D'' ''100.00'' (Some 100),
             CmdT ''20230601'' ''AC001'' ''W'' ''100.00'' (Some 100)]) ''AC001'') =
     [- 100, 0]"
    by (simp add: backdated_session transactionsOf_def prefix_balances_def chronological_def
          balanceAfter_def calculateNewBalance_def upt_rec [of 1] upt_rec [of 2])
  show "fst (printStatement
       (run [CmdT ''20230610'' ''AC001'' ''D'' ''100.00'' (Some 100),
             CmdT ''20230601'' ''AC001'' ''W'' ''100.00'' (Some 100)]) ''AC001'' ''202306'') =
     Inr [\<lparr>line_date = ''20230601'', line_txnId = ''20230601-01'', line_type = ''W'',
            line_amount = ''100.00'', line_balance = ''-100.00''\<rparr>,
          \<lparr>line_date = ''20230610'', line_txnId = ''20230610-01'', line_type = ''D'',
            line_amount = ''100.00'', line_balance = ''0.00''\<rparr>]"
    by (simp add: backdated_session printStatement_def calculateMonthlyInterest_def
          isNaN_def isDigit_def substring_def startsWith_def sortBy_def byDate_def
          localeCompare_def balanceAfter_def calculateNewBalance_def Let_def
          toFixed_100 toFixed_minus_100 toFixed_0)
qed

text \<open>Hence the balance after the first transaction in chronological order is
  negative.\<close>

theorem backdated_withdrawal_negative_prefix_witness:
  "hd (prefix_balances (transactionsOf
       (run [CmdT ''20230610'' ''AC001'' ''D'' ''100.00'' (Some 100),
             CmdT ''20230601'' ''AC001'' ''W'' ''100.00'' (Some 100)]) ''AC001'')) < 0"
  using backdated_withdrawal_negative_prefix by simp

section \<open>Calendar dates as strings\<close>

lemma parseInt_digits:
  "s \<noteq> [] \<Longrightarrow> list_all isDigit s \<Longrightarrow>
     parseInt s = Some (foldl (\<lambda>n c. 10 * n + digitVal c) 0 s)"
proof -
  assume n: "s \<noteq> []" and d: "list_all isDigit s"
  from d have tw: "takeWhile isDigit s = s" by (simp add: list_all_iff)
  show ?thesis by (simp only: parseInt_def Let_def tw) (simp add: n)
qed

lemma parseInt_two:
  "isDigit c1 \<Longrightarrow> isDigit c2 \<Longrightarrow> parseInt [c1, c2] = Some (10 * digitVal c1 + digitVal c2)"
  by (simp add: parseInt_digits)

lemma carryDays_range:
  "0 \<le> m \<Longrightarrow> m < 12 \<Longrightarrow>
     0 \<le> fst (snd (carryDays y m d)) \<and> fst (snd (carryDays y m d)) < 12 \<and>
     1 \<le> snd (snd (carryDays y m d)) \<and>
     snd (snd (carryDays y m d)) \<le> daysIn (fst (carryDays y m d)) (fst (snd (carryDays y m d)))"
proof (induction y m d rule: carryDays.induct)
  case (1 y m d)
  show ?case
  proof (cases "d < 1")
    case True
    have "0 \<le> (m - 1) mod 12 \<and> (m - 1) mod 12 < 12" by simp
    with True "1.IH"(1) [OF True refl refl] show ?thesis
      by (simp add: carryDays.simps [of y m d] Let_def)
  next
    case False
    show ?thesis
    proof (cases "daysIn y m < d")
      case True
      have "0 \<le> (m + 1) mod 12 \<and> (m + 1) mod 12 < 12" by simp
      with False True "1.IH"(2) [OF False True] show ?thesis
        by (simp add: carryDays.simps [of y m d])
    next
      case f: False
      with False "1.prems" show ?thesis
        by (simp add: carryDays.simps [of y m d])
    qed
  qed
qed

lemma carryDays_year:
  "0 \<le> m \<Longrightarrow> m < 12 \<Longrightarrow> 0 \<le> d \<Longrightarrow>
     (if 1 \<le> d then y else y - 1) \<le> fst (carryDays y m d)"
proof (induction y m d rule: carryDays.induct)
  case (1 y m d)
  show ?case
  proof (cases "d < 1")
    case True
    have b: "28 \<le> daysIn (y + (m - 1) div 12) ((m - 1) mod 12)" by (simp add: daysIn_def)
    have "0 \<le> (m - 1) mod 12 \<and> (m - 1) mod 12 < 12" by simp
    with True "1.IH"(1) [OF True refl refl] "1.prems" b
    have "y + (m - 1) div 12 \<le> fst (carryDays (y + (m - 1) div 12) ((m - 1) mod 12)
        (d + daysIn (y + (m - 1) div 12) ((m - 1) mod 12)))"
      by simp
    moreover have "- 1 \<le> (m - 1) div 12" using "1.prems" by simp
    ultimately show ?thesis using True
      by (simp add: carryDays.simps [of y m d] Let_def)
  next
    case False
    show ?thesis
    proof (cases "daysIn y m < d")
      case True
      have "0 \<le> (m + 1) mod 12 \<and> (m + 1) mod 12 < 12" by simp
      with False True "1.IH"(2) [OF False True]
      have "y + (m + 1) div 12 \<le> fst (carryDays (y + (m + 1) div 12) ((m + 1) mod 12) (d - daysIn y m))"
        by simp
      moreover have "0 \<le> (m + 1) div 12" using "1.prems" by simp
      ultimately show ?thesis using False True
        by (simp add: carryDays.simps [of y m d])
    next
      case f: False
      with False show ?thesis
        by (simp add: carryDays.simps [of y m d])
    qed
  qed
qed

lemma carryDays_id: "1 \<le> d \<Longrightarrow> d \<le> daysIn y m \<Longrightarrow> carryDays y m d = (y, m, d)"
  by (simp add: carryDays.simps [of y m d])

lemma daysIn_bounds: "28 \<le> daysIn y m \<and> daysIn y m \<le> 31"
  by (simp add: daysIn_def)

text \<open>What \<^verbatim>\<open>isValidDate\<close> accepts: eight digits, a year from 100, a month from 01 to
  12 and a day from 01 to the last of the month.\<close>

lemma newDate_roundtrip:
  assumes "getFullYear (newDate (int year) month (int day)) = int year"
    and "getMonth (newDate (int year) month (int day)) = month"
    and "getDate (newDate (int year) month (int day)) = int day"
  shows "100 \<le> year \<and> 0 \<le> month \<and> month < 12 \<and> 1 \<le> day \<and>
         int day \<le> daysIn (int year) month"
proof -
  let ?y = "(if 0 \<le> int year \<and> int year \<le> 99 then 1900 + int year else int year) + month div 12"
  have r: "0 \<le> fst (snd (carryDays ?y (month mod 12) (int day))) \<and>
     fst (snd (carryDays ?y (month mod 12) (int day))) < 12 \<and>
     1 \<le> snd (snd (carryDays ?y (month mod 12) (int day))) \<and>
     snd (snd (carryDays ?y (month mod 12) (int day)))
       \<le> daysIn (fst (carryDays ?y (month mod 12) (int day)))
            (fst (snd (carryDays ?y (month mod 12) (int day))))"
    by (rule carryDays_range) simp_all
  have m: "fst (snd (carryDays ?y (month mod 12) (int day))) = month"
    using assms(2) by (simp add: newDate_def getMonth_def Let_def)
  have d: "snd (snd (carryDays ?y (month mod 12) (int day))) = int day"
    using assms(3) by (simp add: newDate_def getDate_def Let_def)
  have y: "fst (carryDays ?y (month mod 12) (int day)) = int year"
    using assms(1) by (simp add: newDate_def getFullYear_def Let_def)
  from r m have mr: "0 \<le> month \<and> month < 12" by simp
  from r d y m have dr: "1 \<le> int day \<and> int day \<le> daysIn (int year) month" by simp
  from mr have "month div 12 = 0" "month mod 12 = month" by simp_all
  then have "carryDays ?y (month mod 12) (int day) =
      carryDays (if 0 \<le> int year \<and> int year \<le> 99 then 1900 + int year else int year) month (int day)"
    by simp
  with y have y2: "fst (carryDays (if 0 \<le> int year \<and> int year \<le> 99 then 1900 + int year else int year) month (int day)) = int year"
    by simp
  have "100 \<le> year"
  proof (rule ccontr)
    assume "\<not> 100 \<le> year"
    then have "fst (carryDays (1900 + int year) month (int day)) = int year"
      using y2 by simp
    moreover have "(if 1 \<le> int day then 1900 + int year else 1900 + int year - 1)
        \<le> fst (carryDays (1900 + int year) month (int day))"
      using mr by (intro carryDays_year) simp_all
    ultimately show False by (simp split: if_splits)
  qed
  with mr dr show ?thesis by simp
qed

lemma isValidDate_fields:
  assumes "isValidDate x"
  shows "length x = 8 \<and> list_all isDigit x \<and>
     (\<exists>year mm day.
        parseInt (substring 0 4 x) = Some year \<and> parseInt (substring 4 6 x) = Some mm \<and>
        parseInt (substring 6 8 x) = Some day \<and>
        100 \<le> year \<and> 1 \<le> mm \<and> mm \<le> 12 \<and> 1 \<le> day \<and>
        int day \<le> daysIn (int year) (int mm - 1))"
proof -
  from assms have l: "length x = 8" and d: "list_all isDigit x"
    by (auto simp: isValidDate_def isNaN_def split: if_splits)
  from assms l d obtain year mm day where
    p: "parseInt (substring 0 4 x) = Some year" "parseInt (substring 4 6 x) = Some mm"
       "parseInt (substring 6 8 x) = Some day"
    and r: "getFullYear (newDate (int year) (int mm - 1) (int day)) = int year"
       "getMonth (newDate (int year) (int mm - 1) (int day)) = int mm - 1"
       "getDate (newDate (int year) (int mm - 1) (int day)) = int day"
    by (auto simp: isValidDate_def isNaN_def Let_def split: if_splits option.splits)
  from newDate_roundtrip [OF r]
  have "100 \<le> year \<and> 1 \<le> mm \<and> mm \<le> 12 \<and> 1 \<le> day \<and>
        int day \<le> daysIn (int year) (int mm - 1)"
    by auto
  with l d p show ?thesis by blast
qed

lemma isValidDate_day:
  "isValidDate x \<Longrightarrow> \<exists>day. parseInt (substring 6 8 x) = Some day \<and> 1 \<le> day \<and> day \<le> 31"
proof -
  assume "isValidDate x"
  from isValidDate_fields [OF this] obtain year mm day where
    "parseInt (substring 6 8 x) = Some day" "1 \<le> day"
    "int day \<le> daysIn (int year) (int mm - 1)"
    by blast
  moreover have "daysIn (int year) (int mm - 1) \<le> 31" by (simp add: daysIn_bounds)
  ultimately show ?thesis by auto
qed

lemma newDate_lastDay:
  "100 \<le> year \<Longrightarrow> 1 \<le> mm \<Longrightarrow> mm \<le> 12 \<Longrightarrow>
     getDate (newDate (int year) (int mm - 1 + 1) 0) = daysIn (int year) (int mm - 1)"
proof -
  assume y: "100 \<le> year" and m: "1 \<le> mm" "mm \<le> 12"
  have s: "int mm div 12 + (int mm mod 12 - 1) div 12 = 0 \<and>
        (int mm mod 12 - 1) mod 12 = int mm - 1"
  proof (cases "mm = 12")
    case True
    then show ?thesis by simp
  next
    case False
    with m have "int mm div 12 = 0" "int mm mod 12 = int mm" by simp_all
    with m show ?thesis by simp
  qed
  have "carryDays (int year + int mm div 12) (int mm mod 12) 0 =
      carryDays (int year) (int mm - 1) (daysIn (int year) (int mm - 1))"
    using s by (simp add: carryDays.simps [of "int year + int mm div 12" "int mm mod 12" 0] Let_def
         add.assoc)
  also have "\<dots> = (int year, int mm - 1, daysIn (int year) (int mm - 1))"
    using daysIn_bounds [of "int year" "int mm - 1"] by (simp add: carryDays_id)
  finally show ?thesis using y by (simp add: newDate_def getDate_def)
qed

text \<open>A target month: six digits, and the number of days the method computes for it is
  the one of the calendar.\<close>

lemma isValidMonth_fields:
  assumes "isValidMonth m"
  shows "length m = 6 \<and> list_all isDigit m \<and>
     (\<exists>year mm. parseInt (substring 0 4 m) = Some year \<and> parseInt (substring 4 6 m) = Some mm \<and>
        nat (getDate (newDate (int year) (int mm - 1 + 1) 0)) = lastDayOfMonth m) \<and>
     28 \<le> lastDayOfMonth m \<and> lastDayOfMonth m \<le> 31"
proof -
  from assms have v: "isValidDate (m @ ''01'')" by (simp add: isValidMonth_def)
  from isValidDate_fields [OF v] obtain year mm where
    l: "length (m @ ''01'') = 8" and d: "list_all isDigit (m @ ''01'')"
    and p: "parseInt (substring 0 4 (m @ ''01'')) = Some year"
       "parseInt (substring 4 6 (m @ ''01'')) = Some mm"
    and r: "100 \<le> year" "1 \<le> mm" "mm \<le> 12"
    by blast
  from l have l6: "length m = 6" by simp
  then have "substring 0 4 (m @ ''01'') = substring 0 4 m"
    and "substring 4 6 (m @ ''01'') = substring 4 6 m"
    by (simp_all add: substring_def)
  with p have p': "parseInt (substring 0 4 m) = Some year" "parseInt (substring 4 6 m) = Some mm"
    by simp_all
  then have ld: "lastDayOfMonth m = nat (daysIn (int year) (int mm - 1))"
    by (simp add: lastDayOfMonth_def)
  moreover have "nat (getDate (newDate (int year) (int mm - 1 + 1) 0)) =
      nat (daysIn (int year) (int mm - 1))"
    using r by (simp only: newDate_lastDay)
  moreover have "28 \<le> daysIn (int year) (int mm - 1) \<and> daysIn (int year) (int mm - 1) \<le> 31"
    by (rule daysIn_bounds)
  ultimately show ?thesis using l6 d p' by auto
qed

section \<open>The order of date strings\<close>

lemma less_append_same_length:
  "length p = length q \<Longrightarrow> (p @ u < q @ v) = (p < q \<or> p = q \<and> u < v)"
  by (induction p q rule: list_induct2) auto

lemma le_append_same_length:
  "length p = length q \<Longrightarrow> (p @ u \<le> q @ v) = (p < q \<or> p = q \<and> u \<le> v)"
  by (induction p q rule: list_induct2) auto

lemma dateKey_two:
  "d < 100 \<Longrightarrow> dateKey m d = m @ [digitChar (d div 10), digitChar (d mod 10)]"
  by (simp add: dateKey_def toString_two)

lemma dateKey_1: "dateKey m 1 = m @ ''01''"
  by (simp add: dateKey_two digitChar_def)

lemma two_digits_le:
  assumes "isDigit a" "isDigit b" "d < 100"
  shows "([a, b] \<le> [digitChar (d div 10), digitChar (d mod 10)]) =
         (10 * digitVal a + digitVal b \<le> d)"
proof -
  have q: "d div 10 < 10" "d mod 10 < 10" using assms(3) by simp_all
  have va: "digitVal a < 10" and vb: "digitVal b < 10"
    using assms(1,2) by (simp_all add: digitVal_less)
  have 1: "(a < digitChar (d div 10)) = (digitVal a < d div 10)"
    using assms(1) q(1) by (simp add: digit_less_iff isDigit_digitChar digitVal_digitChar)
  have 2: "(a = digitChar (d div 10)) = (digitVal a = d div 10)"
    using assms(1) q(1) by (simp add: digit_eq_iff isDigit_digitChar digitVal_digitChar)
  have 3: "(b < digitChar (d mod 10)) = (digitVal b < d mod 10)"
    using assms(2) q(2) by (simp add: digit_less_iff isDigit_digitChar digitVal_digitChar)
  have 4: "(b = digitChar (d mod 10)) = (digitVal b = d mod 10)"
    using assms(2) q(2) by (simp add: digit_eq_iff isDigit_digitChar digitVal_digitChar)
  have "([a, b] \<le> [digitChar (d div 10), digitChar (d mod 10)]) =
      (digitVal a < d div 10 \<or> digitVal a = d div 10 \<and> digitVal b \<le> d mod 10)"
    by (auto simp: 1 2 3 4)
  also have "\<dots> = (10 * digitVal a + digitVal b \<le> d)"
  proof -
    define q r where "q = d div 10" and "r = d mod 10"
    have "d = 10 * q + r" "r < 10" by (simp_all add: q_def r_def)
    with vb have "(digitVal a < q \<or> digitVal a = q \<and> digitVal b \<le> r) =
        (10 * digitVal a + digitVal b \<le> d)"
      by arith
    then show ?thesis by (simp only: q_def r_def)
  qed
  finally show ?thesis .
qed

lemma two_digits_less_01:
  assumes "isDigit a" "isDigit b"
  shows "([a, b] < ''01'') = (10 * digitVal a + digitVal b < 1)"
proof -
  have z: "CHR ''0'' = digitChar 0" "CHR ''1'' = digitChar 1" by (simp_all add: digitChar_def)
  have 1: "(a < digitChar 0) = (digitVal a < 0)"
    using assms(1) by (simp add: digit_less_iff isDigit_digitChar digitVal_digitChar)
  have 2: "(a = digitChar 0) = (digitVal a = 0)"
    using assms(1) by (simp add: digit_eq_iff isDigit_digitChar digitVal_digitChar)
  have 3: "(b < digitChar 1) = (digitVal b = 0)"
    using assms(2) by (auto simp: digit_less_iff isDigit_digitChar digitVal_digitChar)
  have "([a, b] < [digitChar 0, digitChar 1]) = (digitVal a = 0 \<and> digitVal b = 0)"
    by (simp only: Cons_less_Cons 1 2 3) simp
  then show ?thesis by (simp only: z) auto
qed

text \<open>A calendar date is six characters and two digits of a day from 1.\<close>

lemma isValidDate_split:
  assumes "isValidDate x"
  obtains p a b where "x = p @ [a, b]" "length p = 6" "isDigit a" "isDigit b"
    "parseInt (substring 6 8 x) = Some (10 * digitVal a + digitVal b)"
    "1 \<le> 10 * digitVal a + digitVal b" "10 * digitVal a + digitVal b \<le> 31"
proof -
  from isValidDate_fields [OF assms] have l: "length x = 8" and d: "list_all isDigit x"
    by simp_all
  from isValidDate_day [OF assms] obtain day where
    day: "parseInt (substring 6 8 x) = Some day" "1 \<le> day" "day \<le> 31" by blast
  from l have "length (drop 6 x) = 2" by simp
  then obtain a b where ab: "drop 6 x = [a, b]"
    by (metis (no_types) length_0_conv length_Suc_conv numeral_2_eq_2)
  then have x: "x = take 6 x @ [a, b]" by (metis append_take_drop_id)
  have "set (drop 6 x) \<subseteq> set x" by (rule set_drop_subset)
  with d ab have da: "isDigit a" and db: "isDigit b" by (auto simp: list_all_iff)
  have "substring 6 8 x = [a, b]" using ab by (simp add: substring_def)
  then have "parseInt (substring 6 8 x) = Some (10 * digitVal a + digitVal b)"
    using da db by (simp add: parseInt_two)
  with day have "day = 10 * digitVal a + digitVal b" by simp
  with day x l da db \<open>parseInt (substring 6 8 x) = Some (10 * digitVal a + digitVal b)\<close>
  show thesis by (intro that [of "take 6 x" a b]) simp_all
qed

lemma valid_date_dayOf:
  "isValidDate (txn_date t) \<Longrightarrow>
     parseInt (substring 6 8 (txn_date t)) = Some (dayOf t) \<and> 1 \<le> dayOf t \<and> dayOf t \<le> 31"
  using isValidDate_day [of "txn_date t"] by (auto simp: dayOf_def)

text \<open>A calendar date is before the first day of a month, or in the month, not both;
  and it is up to the day \<open>d\<close> of the month when it is before the month or in it with
  a day up to \<open>d\<close>.\<close>

lemma date_before_or_in_month:
  assumes "isValidDate (txn_date t)" "length m = 6" "1 \<le> d" "d < 100"
  shows "(txn_date t \<le> dateKey m d) =
           (txn_date t < m @ ''01'' \<or> startsWith (txn_date t) m \<and> dayOf t \<le> d)"
    and "\<not> (txn_date t < m @ ''01'' \<and> startsWith (txn_date t) m)"
proof -
  from assms(1) obtain p a b where x: "txn_date t = p @ [a, b]" and l: "length p = 6"
    and d: "isDigit a" "isDigit b"
    and pd: "parseInt (substring 6 8 (txn_date t)) = Some (10 * digitVal a + digitVal b)"
    and ge: "1 \<le> 10 * digitVal a + digitVal b"
    by (rule isValidDate_split)
  from pd have day: "dayOf t = 10 * digitVal a + digitVal b" by (simp add: dayOf_def)
  have sw: "startsWith (txn_date t) m = (p = m)"
    using l assms(2) by (simp add: startsWith_def x)
  have lt: "(txn_date t < m @ ''01'') = (p < m)"
    using l assms(2) ge
    by (simp only: x less_append_same_length two_digits_less_01 [OF d]) auto
  have le: "(txn_date t \<le> dateKey m d) = (p < m \<or> p = m \<and> dayOf t \<le> d)"
    using l assms(2,4)
    by (simp only: x dateKey_two le_append_same_length two_digits_le [OF d] day)
  show "(txn_date t \<le> dateKey m d) =
           (txn_date t < m @ ''01'' \<or> startsWith (txn_date t) m \<and> dayOf t \<le> d)"
    by (simp only: le lt sw)
  show "\<not> (txn_date t < m @ ''01'' \<and> startsWith (txn_date t) m)"
    by (simp only: lt sw) auto
qed

section \<open>The table of daily balances\<close>

lemma dateKey_inj: "dateKey m d = dateKey m e \<Longrightarrow> d = e"
proof -
  assume "dateKey m d = dateKey m e"
  then have "sequence_id m d = sequence_id m e"
    by (simp add: dateKey_def sequence_id_def padStart_toString)
  then show ?thesis by (rule sequence_id_inj)
qed

lemma setDays_apply:
  "setDays m ds b f (dateKey m d) = (if d \<in> set ds then Some b else f (dateKey m d))"
proof (induction ds arbitrary: f)
  case Nil
  show ?case by (simp add: setDays_def)
next
  case (Cons x xs)
  have e: "setDays m (x # xs) b f = setDays m xs b (f(dateKey m x \<mapsto> b))"
    by (simp add: setDays_def)
  have "setDays m (x # xs) b f (dateKey m d) =
      (if d \<in> set xs then Some b else (f(dateKey m x \<mapsto> b)) (dateKey m d))"
    by (simp only: e Cons.IH)
  also have "\<dots> = (if d \<in> set (x # xs) then Some b else f (dateKey m d))"
    by (auto dest: dateKey_inj)
  finally show ?case .
qed

lemma balanceAfter_snoc:
  "balanceAfter b (ys @ [t]) = calculateNewBalance (balanceAfter b ys) (txn_type t) (txn_amount t)"
  by (simp add: balanceAfter_def)

lemma balanceAfter_append:
  "balanceAfter b (xs @ ys) = balanceAfter (balanceAfter b xs) ys"
  by (simp add: balanceAfter_def)

text \<open>The loop over the month's transactions, sorted by day: afterwards the table has,
  for each day, the balance after the transactions up to that day.\<close>

lemma month_fold:
  assumes "\<forall>t\<in>set ys. isValidDate (txn_date t)"
    and "sorted (map dayOf ys)"
    and "\<forall>d. 1 \<le> d \<and> d \<le> n \<longrightarrow> fo (dateKey m d) = Some bo"
  shows "fst (foldl (applyMonthTransaction m (Some n)) (bo, fo) ys) = balanceAfter bo ys \<and>
     (\<forall>d. 1 \<le> d \<and> d \<le> n \<longrightarrow>
        snd (foldl (applyMonthTransaction m (Some n)) (bo, fo) ys) (dateKey m d) =
          Some (balanceAfter bo (filter (\<lambda>t. dayOf t \<le> d) ys)))"
  using assms(1,2)
proof (induction ys rule: rev_induct)
  case Nil
  show ?case using assms(3) by (simp add: balanceAfter_def)
next
  case (snoc t ys)
  let ?st = "foldl (applyMonthTransaction m (Some n)) (bo, fo) ys"
  from snoc.prems have v: "\<forall>t\<in>set ys. isValidDate (txn_date t)" and vt: "isValidDate (txn_date t)"
    and s: "sorted (map dayOf ys)" and le: "\<forall>u\<in>set ys. dayOf u \<le> dayOf t"
    by (auto simp: sorted_append)
  from snoc.IH [OF v s] have
    ih1: "fst ?st = balanceAfter bo ys"
    and ih2: "\<forall>d. 1 \<le> d \<and> d \<le> n \<longrightarrow>
        snd ?st (dateKey m d) = Some (balanceAfter bo (filter (\<lambda>t. dayOf t \<le> d) ys))"
    by simp_all
  have p: "parseInt (substring 6 8 (txn_date t)) = Some (dayOf t)"
    using vt by (simp add: valid_date_dayOf)
  have step: "foldl (applyMonthTransaction m (Some n)) (bo, fo) (ys @ [t]) =
      (balanceAfter bo (ys @ [t]),
       setDays m [dayOf t..<Suc n] (balanceAfter bo (ys @ [t])) (snd ?st))"
    by (simp add: applyMonthTransaction_def p daysFrom_def ih1 balanceAfter_snoc Let_def)
  show ?case
  proof (intro conjI allI impI)
    show "fst (foldl (applyMonthTransaction m (Some n)) (bo, fo) (ys @ [t])) =
        balanceAfter bo (ys @ [t])"
      by (simp only: step fst_conv)
  next
    fix d
    assume d: "1 \<le> d \<and> d \<le> n"
    show "snd (foldl (applyMonthTransaction m (Some n)) (bo, fo) (ys @ [t])) (dateKey m d) =
          Some (balanceAfter bo (filter (\<lambda>t. dayOf t \<le> d) (ys @ [t])))"
    proof (cases "dayOf t \<le> d")
      case True
      with le have "\<forall>u\<in>set ys. dayOf u \<le> d" by fastforce
      then have "filter (\<lambda>t. dayOf t \<le> d) ys = ys" by (simp add: filter_id_conv)
      with True have "filter (\<lambda>t. dayOf t \<le> d) (ys @ [t]) = ys @ [t]" by simp
      moreover have "d \<in> set [dayOf t..<Suc n]" using True d by auto
      ultimately show ?thesis by (simp only: step snd_conv setDays_apply if_True)
    next
      case False
      then have "filter (\<lambda>t. dayOf t \<le> d) (ys @ [t]) = filter (\<lambda>t. dayOf t \<le> d) ys" by simp
      moreover have "d \<notin> set [dayOf t..<Suc n]" using False by simp
      ultimately show ?thesis using ih2 d by (simp only: step snd_conv setDays_apply if_False)
    qed
  qed
qed

lemma filter_sorted_split:
  "sorted (map f xs) \<Longrightarrow> \<forall>x\<in>set xs. B x \<longrightarrow> \<not> f x < c \<Longrightarrow>
     filter (\<lambda>x. f x < c \<or> B x) xs = filter (\<lambda>x. f x < c) xs @ filter B xs"
proof (induction xs)
  case Nil
  show ?case by simp
next
  case (Cons x xs)
  show ?case
  proof (cases "f x < c")
    case True
    with Cons show ?thesis by auto
  next
    case False
    with Cons.prems(1) have "\<forall>y\<in>set xs. \<not> f y < c" by (auto simp: not_less)
    then have "filter (\<lambda>x. f x < c) xs = []" and "filter (\<lambda>x. f x < c \<or> B x) xs = filter B xs"
      by (auto intro: filter_cong)
    with False show ?thesis by simp
  qed
qed

lemma month_date_order:
  assumes "isValidDate (txn_date t)" "isValidDate (txn_date u)" "length m = 6"
    and "startsWith (txn_date t) m" "startsWith (txn_date u) m"
    and "txn_date t \<le> txn_date u"
  shows "dayOf t \<le> dayOf u"
proof -
  from assms(2) obtain p a b where x: "txn_date u = p @ [a, b]" and l: "length p = 6"
    and d: "isDigit a" "isDigit b"
    and pd: "parseInt (substring 6 8 (txn_date u)) = Some (10 * digitVal a + digitVal b)"
    and ge: "1 \<le> 10 * digitVal a + digitVal b" and le: "10 * digitVal a + digitVal b \<le> 31"
    by (rule isValidDate_split)
  from pd have day: "dayOf u = 10 * digitVal a + digitVal b" by (simp add: dayOf_def)
  have vb: "digitVal b < 10" using d(2) by (rule digitVal_less)
  then have "dayOf u div 10 = digitVal a" "dayOf u mod 10 = digitVal b" by (simp_all add: day)
  then have "dateKey m (dayOf u) = m @ [a, b]"
    using le d by (simp add: dateKey_two day digitChar_digitVal)
  moreover have "p = m" using assms(3,5) l by (simp add: startsWith_def x)
  ultimately have k: "txn_date u = dateKey m (dayOf u)" by (simp add: x)
  have "(txn_date t \<le> dateKey m (dayOf u)) =
           (txn_date t < m @ ''01'' \<or> startsWith (txn_date t) m \<and> dayOf t \<le> dayOf u)"
    using assms(1,3) ge le by (intro date_before_or_in_month(1)) (simp_all add: day)
  moreover have "\<not> (txn_date t < m @ ''01'' \<and> startsWith (txn_date t) m)"
    using assms(1,3) by (rule date_before_or_in_month(2) [where d = 1]) simp_all
  ultimately show ?thesis using assms(4,6) k by simp
qed

lemma month_sorted_by_day:
  assumes "\<forall>t\<in>set txns. isValidDate (txn_date t)" "length m = 6"
  shows "sorted (map dayOf (filter (\<lambda>t. startsWith (txn_date t) m) (sort_key txn_date txns)))"
proof -
  let ?ys = "filter (\<lambda>t. startsWith (txn_date t) m) (sort_key txn_date txns)"
  have "sorted (map txn_date ?ys)" by (simp add: sorted_filter)
  then have "sorted_wrt (\<lambda>t u. txn_date t \<le> txn_date u) ?ys" by (simp add: sorted_map)
  then have "sorted_wrt (\<lambda>t u. dayOf t \<le> dayOf u) ?ys"
  proof (rule sorted_wrt_mono_rel [rotated])
    fix t u
    assume "t \<in> set ?ys" "u \<in> set ?ys" "txn_date t \<le> txn_date u"
    with assms show "dayOf t \<le> dayOf u"
      by (intro month_date_order [of t u m]) auto
  qed
  then show ?thesis by (simp add: sorted_map)
qed

text \<open>For each day of the month the table holds the balance as of that day.\<close>

lemma dailyBalances_balance_as_of:
  assumes "\<forall>t\<in>set txns. isValidDate (txn_date t)" "length m = 6" "n \<le> 31"
    and "1 \<le> d" "d \<le> n"
  shows "snd (foldl (applyMonthTransaction m (Some n))
            (balanceAfter 0 (filter (\<lambda>t. txn_date t < m @ ''01'') (sort_key txn_date txns)),
             setDays m (daysFrom 1 (Some n))
               (balanceAfter 0 (filter (\<lambda>t. txn_date t < m @ ''01'') (sort_key txn_date txns)))
               Map.empty)
            (filter (\<lambda>t. startsWith (txn_date t) m) (sort_key txn_date txns)))
          (dateKey m d) =
         Some (balance_as_of txns (dateKey m d))"
proof -
  let ?S = "sort_key txn_date txns"
  let ?before = "filter (\<lambda>t. txn_date t < m @ ''01'') ?S"
  let ?month = "filter (\<lambda>t. startsWith (txn_date t) m) ?S"
  let ?b0 = "balanceAfter 0 ?before"
  have v: "\<forall>t\<in>set ?S. isValidDate (txn_date t)" using assms(1) by simp
  have "\<forall>e. 1 \<le> e \<and> e \<le> n \<longrightarrow>
      setDays m (daysFrom 1 (Some n)) ?b0 Map.empty (dateKey m e) = Some ?b0"
    by (simp add: setDays_apply daysFrom_def)
  with month_fold [where ys = ?month and m = m and n = n and bo = ?b0
      and fo = "setDays m (daysFrom 1 (Some n)) ?b0 Map.empty"]
    month_sorted_by_day [OF assms(1,2)] v assms(4,5)
  have 1: "snd (foldl (applyMonthTransaction m (Some n))
            (?b0, setDays m (daysFrom 1 (Some n)) ?b0 Map.empty) ?month) (dateKey m d) =
        Some (balanceAfter ?b0 (filter (\<lambda>t. dayOf t \<le> d) ?month))"
    by simp
  have d100: "d < 100" using assms(3,5) by simp
  have "filter (\<lambda>t. txn_date t \<le> dateKey m d) ?S =
      filter (\<lambda>t. txn_date t < m @ ''01'' \<or> startsWith (txn_date t) m \<and> dayOf t \<le> d) ?S"
    using v assms(2,4) d100 by (intro filter_cong refl date_before_or_in_month(1)) simp_all
  also have "\<dots> = ?before @ filter (\<lambda>t. startsWith (txn_date t) m \<and> dayOf t \<le> d) ?S"
  proof (rule filter_sorted_split)
    show "sorted (map txn_date ?S)" by simp
    show "\<forall>x\<in>set ?S. startsWith (txn_date x) m \<and> dayOf x \<le> d \<longrightarrow> \<not> txn_date x < m @ ''01''"
      using v assms(2) date_before_or_in_month(2) [where m = m and d = 1] by auto
  qed
  also have "filter (\<lambda>t. startsWith (txn_date t) m \<and> dayOf t \<le> d) ?S =
      filter (\<lambda>t. dayOf t \<le> d) ?month"
    by (simp add: conj_commute)
  finally have "balance_as_of txns (dateKey m d) =
      balanceAfter ?b0 (filter (\<lambda>t. dayOf t \<le> d) ?month)"
    by (simp add: balance_as_of_def chronological_def balanceAfter_append)
  with 1 show ?thesis by simp
qed

section \<open>Periods of one rate\<close>

lemma rate_runs_const:
  "\<forall>e\<in>set ds. f e = f d \<Longrightarrow> rate_runs f (d # ds) = [d # ds]"
proof -
  assume a: "\<forall>e\<in>set ds. f e = f d"
  then have "takeWhile (\<lambda>e. f e = f d) ds = ds" by (simp add: takeWhile_eq_all_conv)
  moreover from a have "dropWhile (\<lambda>e. f e = f d) ds = []" by (simp add: dropWhile_eq_Nil_conv)
  ultimately show ?thesis by (simp only: rate_runs.simps)
qed

lemma rate_runs_split:
  "\<forall>e\<in>set xs. f e = f d \<Longrightarrow> f k \<noteq> f d \<Longrightarrow>
     rate_runs f (d # xs @ k # ys) = (d # xs) # rate_runs f (k # ys)"
proof -
  assume a: "\<forall>e\<in>set xs. f e = f d" and n: "f k \<noteq> f d"
  from a n have "takeWhile (\<lambda>e. f e = f d) (xs @ k # ys) = xs"
    by (simp add: takeWhile_append2)
  moreover from a n have "dropWhile (\<lambda>e. f e = f d) (xs @ k # ys) = k # ys"
    by (simp add: dropWhile_append2)
  ultimately show ?thesis by (simp only: rate_runs.simps)
qed

lemma parse_dateKey:
  "length m = 6 \<Longrightarrow> d < 100 \<Longrightarrow> parseInt (substring 6 8 (dateKey m d)) = Some d"
proof -
  assume l: "length m = 6" and d: "d < 100"
  then have "substring 6 8 (dateKey m d) = [digitChar (d div 10), digitChar (d mod 10)]"
    by (simp add: dateKey_two substring_def)
  moreover have "d div 10 < 10" "d mod 10 < 10" using d by simp_all
  ultimately show ?thesis
    by (simp add: parseInt_two isDigit_digitChar digitVal_digitChar)
qed

lemma addPeriodInterest_Num:
  "addPeriodInterest (Num t) (Some b) r (Some n) = Num (t + b * r / 100 * of_int n / 365)"
  by (simp add: addPeriodInterest_def)

text \<open>The loop over the days, from a day \<open>k\<close> on, in a period that began on the day
  \<open>start\<close>: with the final period it adds the interest of the runs from \<open>start\<close>.\<close>

lemma period_loop:
  assumes "length m = 6" and "n \<le> 31"
    and "\<forall>d. 1 \<le> d \<and> d \<le> n \<longrightarrow> daily (dateKey m d) = Some (bal d)"
    and "\<forall>d. 0 \<le> getInterestRate s (dateKey m d)"
  shows "1 \<le> start \<Longrightarrow> start < k \<Longrightarrow> k \<le> Suc n \<Longrightarrow>
     \<forall>e. start \<le> e \<and> e < k \<longrightarrow>
        getInterestRate s (dateKey m e) = getInterestRate s (dateKey m start) \<Longrightarrow>
     finalPeriod daily n
       (foldl (periodStep s m daily)
          (Num t, dateKey m start, getInterestRate s (dateKey m start)) [k..<Suc n]) =
     Num (t + sum_list
        (map (\<lambda>r. bal (hd r) * getInterestRate s (dateKey m (hd r)) / 100
                  * of_nat (length r) / 365)
           (rate_runs (\<lambda>d. getInterestRate s (dateKey m d)) [start..<Suc n])))"
proof (induction "Suc n - k" arbitrary: k start t)
  case 0
  let ?f = "\<lambda>d. getInterestRate s (dateKey m d)"
  let ?g = "\<lambda>r. bal (hd r) * ?f (hd r) / 100 * of_nat (length r) / 365"
  from "0.hyps" "0.prems"(3) have k: "k = Suc n" by simp
  with "0.prems"(2) have sn: "start \<le> n" by simp
  have e: "[k..<Suc n] = []" by (simp add: k)
  have up: "[start..<Suc n] = start # [Suc start..<Suc n]"
    using sn by (simp add: upt_conv_Cons)
  have "\<forall>e\<in>set [Suc start..<Suc n]. ?f e = ?f start"
  proof
    fix e
    assume "e \<in> set [Suc start..<Suc n]"
    then have "start \<le> e \<and> e < k" using k by auto
    with "0.prems"(4) show "?f e = ?f start" by blast
  qed
  then have "rate_runs ?f (start # [Suc start..<Suc n]) = [start # [Suc start..<Suc n]]"
    by (rule rate_runs_const)
  then have rr: "rate_runs ?f [start..<Suc n] = [[start..<Suc n]]"
    by (simp only: up [symmetric])
  have h: "hd [start..<Suc n] = start" by (subst up) simp
  have l: "length [start..<Suc n] = Suc n - start" by (rule length_upt)
  have rhs: "sum_list (map ?g (rate_runs ?f [start..<Suc n])) =
      bal start * ?f start / 100 * of_nat (Suc n - start) / 365"
    by (simp only: rr list.map sum_list.Cons sum_list.Nil h l add_0_right)
  have p: "parseInt (substring 6 8 (dateKey m start)) = Some start"
    using assms(1,2) sn by (simp add: parse_dateKey)
  have b: "daily (dateKey m start) = Some (bal start)" using assms(3) "0.prems"(1) sn by simp
  have days: "(of_int (int n - int start + 1) :: rat) = of_nat (Suc n - start)"
    using sn by (simp add: of_nat_diff)
  have nn: "0 \<le> ?f start" using assms(4) by simp
  have lhs: "finalPeriod daily n (Num t, dateKey m start, ?f start) =
      Num (t + bal start * ?f start / 100 * of_nat (Suc n - start) / 365)"
  proof (cases "0 < ?f start")
    case True
    then show ?thesis
      by (simp only: finalPeriod_def prod.case p b option.case addPeriodInterest_Num days if_True)
  next
    case False
    with nn have z: "?f start = 0" by simp
    then show ?thesis by (simp add: finalPeriod_def)
  qed
  show ?case by (simp only: e foldl_Nil lhs rhs)
next
  case (Suc j)
  let ?f = "\<lambda>d. getInterestRate s (dateKey m d)"
  let ?g = "\<lambda>r. bal (hd r) * ?f (hd r) / 100 * of_nat (length r) / 365"
  from Suc.hyps(2) have kn: "k \<le> n" by simp
  then have uk: "[k..<Suc n] = k # [Suc k..<Suc n]" by (simp add: upt_conv_Cons)
  have sn: "start \<le> n" using Suc.prems(2) kn by simp
  have j: "j = Suc n - Suc k" using Suc.hyps(2) by simp
  show ?case
  proof (cases "?f k = ?f start")
    case True
    have step: "periodStep s m daily (Num t, dateKey m start, ?f start) k =
        (Num t, dateKey m start, ?f start)"
      using True by (simp add: periodStep_def)
    have fo: "foldl (periodStep s m daily) (Num t, dateKey m start, ?f start) [k..<Suc n] =
        foldl (periodStep s m daily) (Num t, dateKey m start, ?f start) [Suc k..<Suc n]"
      by (subst uk) (simp only: foldl_Cons step)
    have c: "\<forall>e. start \<le> e \<and> e < Suc k \<longrightarrow> ?f e = ?f start"
    proof (intro allI impI)
      fix e
      assume "start \<le> e \<and> e < Suc k"
      then have "(start \<le> e \<and> e < k) \<or> e = k" by auto
      with Suc.prems(4) True show "?f e = ?f start" by blast
    qed
    have "start < Suc k" "Suc k \<le> Suc n" using Suc.prems(2) kn by simp_all
    from Suc.hyps(1) [OF j Suc.prems(1) this c]
    show ?thesis by (simp only: fo)
  next
    case False
    have p: "parseInt (substring 6 8 (dateKey m start)) = Some start"
      using assms(1,2) sn by (simp add: parse_dateKey)
    have b: "daily (dateKey m start) = Some (bal start)" using assms(3) Suc.prems(1) sn by simp
    let ?c = "bal start * ?f start / 100 * of_nat (k - start) / 365"
    have days: "(of_int (int k - int start) :: rat) = of_nat (k - start)"
      using Suc.prems(2) by (simp add: of_nat_diff)
    have nn: "0 \<le> ?f start" using assms(4) by simp
    have step: "periodStep s m daily (Num t, dateKey m start, ?f start) k =
        (Num (t + ?c), dateKey m k, ?f k)"
    proof (cases "0 < ?f start")
      case True
      with False Suc.prems(2) show ?thesis
        by (simp add: periodStep_def p b addPeriodInterest_Num Let_def of_nat_diff)
    next
      case f: False
      with nn have "?f start = 0" by simp
      with False show ?thesis by (simp add: periodStep_def Let_def)
    qed
    have fo: "foldl (periodStep s m daily) (Num t, dateKey m start, ?f start) [k..<Suc n] =
        foldl (periodStep s m daily) (Num (t + ?c), dateKey m k, ?f k) [Suc k..<Suc n]"
      by (subst uk) (simp only: foldl_Cons step)
    have c: "\<forall>e. k \<le> e \<and> e < Suc k \<longrightarrow> ?f e = ?f k" by (auto simp: less_Suc_eq)
    have k1: "1 \<le> k" "k < Suc k" "Suc k \<le> Suc n" using Suc.prems(1,2) kn by simp_all
    have ih: "finalPeriod daily n
       (foldl (periodStep s m daily) (Num (t + ?c), dateKey m k, ?f k) [Suc k..<Suc n]) =
       Num (t + ?c + sum_list (map ?g (rate_runs ?f [k..<Suc n])))"
      by (rule Suc.hyps(1) [OF j k1 c])
    have sk: "[start..<Suc n] = (start # [Suc start..<k]) @ [k..<Suc n]"
    proof -
      have "[start..<k + (Suc n - k)] = [start..<k] @ [k..<k + (Suc n - k)]"
        using Suc.prems(2) by (intro upt_add_eq_append) simp
      moreover have "k + (Suc n - k) = Suc n" using kn by simp
      ultimately have "[start..<Suc n] = [start..<k] @ [k..<Suc n]" by (simp only:)
      moreover have "[start..<k] = start # [Suc start..<k]"
        using Suc.prems(2) by (simp add: upt_conv_Cons)
      ultimately show ?thesis by (simp only:)
    qed
    have "\<forall>e\<in>set [Suc start..<k]. ?f e = ?f start"
    proof
      fix e
      assume "e \<in> set [Suc start..<k]"
      then have "start \<le> e \<and> e < k" by auto
      with Suc.prems(4) show "?f e = ?f start" by blast
    qed
    then have "rate_runs ?f (start # [Suc start..<k] @ k # [Suc k..<Suc n]) =
        (start # [Suc start..<k]) # rate_runs ?f (k # [Suc k..<Suc n])"
      using False by (rule rate_runs_split)
    then have rr: "rate_runs ?f [start..<Suc n] =
        (start # [Suc start..<k]) # rate_runs ?f [k..<Suc n]"
      by (simp only: sk uk [symmetric] append_Cons)
    have len: "length (start # [Suc start..<k]) = k - start" using Suc.prems(2) by simp
    have "sum_list (map ?g (rate_runs ?f [start..<Suc n])) =
        ?c + sum_list (map ?g (rate_runs ?f [k..<Suc n]))"
      by (simp only: rr list.map sum_list.Cons list.sel len)
    then show ?thesis by (simp only: fo ih add.assoc)
  qed
qed

section \<open>The monthly interest, run by run\<close>

lemma set_insertBy: "set (insertBy cmp x ys) = insert x (set ys)"
  by (induction ys) auto

lemma set_sortBy: "set (sortBy cmp xs) = set xs"
  by (induction xs) (simp_all add: sortBy_def set_insertBy)

lemma getInterestRate_nonneg:
  assumes "\<forall>r\<in>set (interestRules s). 0 \<le> rule_rate r"
  shows "0 \<le> getInterestRate s x"
proof (cases "sortBy (\<lambda>a b. localeCompare (rule_date b) (rule_date a))
                (filter (\<lambda>rule. rule_date rule \<le> x) (interestRules s))")
  case Nil
  then show ?thesis by (simp add: getInterestRate_def)
next
  case (Cons r rs)
  then have "r \<in> set (sortBy (\<lambda>a b. localeCompare (rule_date b) (rule_date a))
                (filter (\<lambda>rule. rule_date rule \<le> x) (interestRules s)))"
    by simp
  then have "r \<in> set (interestRules s)" by (simp add: set_sortBy)
  with assms Cons show ?thesis by (simp add: getInterestRate_def)
qed

lemma getInterestRate_no_rules: "interestRules s = [] \<Longrightarrow> getInterestRate s x = 0"
  by (simp add: getInterestRate_def sortBy_def)

lemma calculateMonthlyInterest_unfold:
  assumes "interestRules s \<noteq> []" "accounts s a = Some acc"
    and "parseInt (substring 0 4 m) = Some year" "parseInt (substring 4 6 m) = Some mm"
    and "nat (getDate (newDate (int year) (int mm - 1 + 1) 0)) = n"
  shows "calculateMonthlyInterest s a m b =
     Inr ((case finalPeriod
                 (snd (foldl (applyMonthTransaction m (Some n))
                    (balanceAfter 0 (filter (\<lambda>t. txn_date t < m @ ''01'')
                                       (sort_key txn_date (acc_transactions acc))),
                     setDays m (daysFrom 1 (Some n))
                       (balanceAfter 0 (filter (\<lambda>t. txn_date t < m @ ''01'')
                                          (sort_key txn_date (acc_transactions acc))))
                       Map.empty)
                    (filter (\<lambda>t. startsWith (txn_date t) m)
                       (sort_key txn_date (acc_transactions acc)))))
                 n
                 (foldl (periodStep s m
                    (snd (foldl (applyMonthTransaction m (Some n))
                      (balanceAfter 0 (filter (\<lambda>t. txn_date t < m @ ''01'')
                                       (sort_key txn_date (acc_transactions acc))),
                       setDays m (daysFrom 1 (Some n))
                         (balanceAfter 0 (filter (\<lambda>t. txn_date t < m @ ''01'')
                                          (sort_key txn_date (acc_transactions acc))))
                         Map.empty)
                      (filter (\<lambda>t. startsWith (txn_date t) m)
                         (sort_key txn_date (acc_transactions acc))))))
                    (Num 0, m @ ''01'', getInterestRate s (m @ ''01'')) [2..<Suc n]) of
             Num t \<Rightarrow> Num (toFixedValue t) | NaN \<Rightarrow> NaN),
          s\<lparr>accounts := (accounts s)(a \<mapsto>
               acc\<lparr>acc_transactions := sort_key txn_date (acc_transactions acc)\<rparr>)\<rparr>)"
  using assms
  by (simp add: calculateMonthlyInterest_def Let_def finalPeriod_def daysFrom_def sortBy_byDate
        case_prod_beta del: upt_Suc)

lemma toFixedValue_0: "toFixedValue 0 = 0"
  by (simp add: toFixedValue_def toFixedCents_def)

text \<open>For an account whose transactions have calendar dates, a target month and rates
  that are not negative, the method returns the sum over the runs of one rate, rounded
  to two decimals.\<close>

lemma calculateMonthlyInterest_runs:
  assumes "accounts s a = Some acc"
    and "\<forall>x\<in>set (acc_transactions acc). isValidDate (txn_date x)"
    and "isValidMonth m"
    and "\<forall>r\<in>set (interestRules s). 0 \<le> rule_rate r"
  shows "\<exists>s'. calculateMonthlyInterest s a m b =
           Inr (Num (monthly_interest s (acc_transactions acc) m), s')"
proof (cases "interestRules s = []")
  case True
  then have "run_interest s (acc_transactions acc) m = (\<lambda>r. 0)"
    by (intro ext) (simp add: run_interest_def getInterestRate_no_rules)
  then have "monthly_interest s (acc_transactions acc) m = 0"
    by (simp add: monthly_interest_def toFixedValue_0 del: upt_Suc)
  with True show ?thesis by (simp add: calculateMonthlyInterest_def)
next
  case False
  let ?txns = "acc_transactions acc"
  let ?n = "lastDayOfMonth m"
  let ?f = "\<lambda>d. getInterestRate s (dateKey m d)"
  let ?bal = "\<lambda>d. balance_as_of ?txns (dateKey m d)"
  let ?daily = "snd (foldl (applyMonthTransaction m (Some ?n))
                    (balanceAfter 0 (filter (\<lambda>t. txn_date t < m @ ''01'')
                                       (sort_key txn_date ?txns)),
                     setDays m (daysFrom 1 (Some ?n))
                       (balanceAfter 0 (filter (\<lambda>t. txn_date t < m @ ''01'')
                                          (sort_key txn_date ?txns)))
                       Map.empty)
                    (filter (\<lambda>t. startsWith (txn_date t) m) (sort_key txn_date ?txns)))"
  from isValidMonth_fields [OF assms(3)] obtain year mm where
    l: "length m = 6"
    and p: "parseInt (substring 0 4 m) = Some year" "parseInt (substring 4 6 m) = Some mm"
       "nat (getDate (newDate (int year) (int mm - 1 + 1) 0)) = ?n"
    and n: "28 \<le> ?n" "?n \<le> 31"
    by blast
  have daily: "\<forall>d. 1 \<le> d \<and> d \<le> ?n \<longrightarrow> ?daily (dateKey m d) = Some (?bal d)"
    using assms(2) l n(2) by (intro allI impI dailyBalances_balance_as_of) simp_all
  have nonneg: "\<forall>d. 0 \<le> ?f d" using assms(4) by (simp add: getInterestRate_nonneg)
  have "finalPeriod ?daily ?n
       (foldl (periodStep s m ?daily) (Num 0, dateKey m 1, ?f 1) [2..<Suc ?n]) =
     Num (0 + sum_list
        (map (\<lambda>r. ?bal (hd r) * ?f (hd r) / 100 * of_nat (length r) / 365)
           (rate_runs ?f [1..<Suc ?n])))"
    using l n(2) daily nonneg
  proof (rule period_loop)
    show "1 \<le> (1::nat)" by simp
    show "(1::nat) < 2" by simp
    show "2 \<le> Suc ?n" using n(1) by simp
    show "\<forall>e. 1 \<le> e \<and> e < 2 \<longrightarrow> ?f e = ?f 1"
    proof (intro allI impI)
      fix e :: nat
      assume "1 \<le> e \<and> e < 2"
      then have "e = 1" by simp
      then show "?f e = ?f 1" by simp
    qed
  qed
  moreover have "(\<lambda>r. ?bal (hd r) * ?f (hd r) / 100 * of_nat (length r) / 365) =
      run_interest s ?txns m"
    by (intro ext) (simp add: run_interest_def)
  ultimately have "finalPeriod ?daily ?n
       (foldl (periodStep s m ?daily) (Num 0, m @ ''01'', getInterestRate s (m @ ''01''))
          [2..<Suc ?n]) =
     Num (sum_list (map (run_interest s ?txns m) (rate_runs ?f [1..<Suc ?n])))"
    by (simp only: dateKey_1 add_0)
  then show ?thesis
    by (simp only: calculateMonthlyInterest_unfold [OF False assms(1) p] monthly_interest_def
          number.case) blast
qed

section \<open>A rate change in the middle of the month\<close>

lemma dateKey_le:
  assumes "d < 100" "e < 100"
  shows "(dateKey m d \<le> dateKey m e) = (d \<le> e)"
proof -
  have q: "d div 10 < 10" "d mod 10 < 10" using assms(1) by simp_all
  have "([digitChar (d div 10), digitChar (d mod 10)]
          \<le> [digitChar (e div 10), digitChar (e mod 10)]) =
        (10 * digitVal (digitChar (d div 10)) + digitVal (digitChar (d mod 10)) \<le> e)"
    using q assms(2) by (intro two_digits_le isDigit_digitChar)
  then show ?thesis
    using q assms by (simp add: dateKey_two le_append_same_length digitVal_digitChar)
qed










section \<open>The interest line of a statement\<close>

lemma calculateMonthlyInterest_endBalance:
  "calculateMonthlyInterest s a m b = calculateMonthlyInterest s a m c"
  by (simp add: calculateMonthlyInterest_def)

lemma year_month_suffix: "length m = 6 \<Longrightarrow> substring 0 4 m @ substring 4 6 m @ x = m @ x"
  using year_month [of m] by (metis append_assoc)

text \<open>When the interest of the month is positive, the statement is the lines of the
  month's transactions and one more line, of type \<open>I\<close>, without identifier, with the
  interest as its amount, and dated the 30th whatever the month.\<close>

lemma printStatement_interest_line:
  assumes "accounts s a = Some acc" and "length m = 6" and "\<not> isNaN m"
    and "filter (\<lambda>txn. startsWith (txn_date txn) m) (acc_transactions acc) \<noteq> []"
    and "calculateMonthlyInterest s a m b = Inr (Num i, s')" and "0 < i"
  shows "fst (printStatement s a m) =
     Inr (statementLines
            (balanceAfter 0 (sort_key txn_date
               (filter (\<lambda>txn. txn_date txn < m @ ''01'') (acc_transactions acc))))
            (sort_key txn_date
               (filter (\<lambda>txn. startsWith (txn_date txn) m) (acc_transactions acc))) @
          [\<lparr>line_date = m @ ''30'', line_txnId = [], line_type = ''I'',
            line_amount = toFixed i,
            line_balance = toFixed
              (balanceAfter
                 (balanceAfter 0 (sort_key txn_date
                    (filter (\<lambda>txn. txn_date txn < m @ ''01'') (acc_transactions acc))))
                 (sort_key txn_date
                    (filter (\<lambda>txn. startsWith (txn_date txn) m) (acc_transactions acc)))
               + i)\<rparr>])"
proof -
  let ?B = "balanceAfter
                 (balanceAfter 0 (sort_key txn_date
                    (filter (\<lambda>txn. txn_date txn < m @ ''01'') (acc_transactions acc))))
                 (sort_key txn_date
                    (filter (\<lambda>txn. startsWith (txn_date txn) m) (acc_transactions acc)))"
  have c: "calculateMonthlyInterest s a m ?B = Inr (Num i, s')"
    using assms(5) calculateMonthlyInterest_endBalance [of s a m ?B b] by simp
  have ne: "sort_key txn_date
      (filter (\<lambda>txn. startsWith (txn_date txn) m) (acc_transactions acc)) \<noteq> []"
    using assms(4) by (metis length_sort length_0_conv)
  show ?thesis
    using assms(1-3,6) ne
    by (simp add: printStatement_def year_month year_month_suffix Let_def sortBy_byDate c)
qed

text \<open>When the interest is zero, negative or NaN, the statement is the lines of the
  month's transactions alone.\<close>

lemma printStatement_no_interest_line:
  assumes "accounts s a = Some acc" and "length m = 6" and "\<not> isNaN m"
    and "filter (\<lambda>txn. startsWith (txn_date txn) m) (acc_transactions acc) \<noteq> []"
    and "calculateMonthlyInterest s a m b = Inr (x, s')"
    and "x = NaN \<or> (\<exists>i. x = Num i \<and> i \<le> 0)"
  shows "fst (printStatement s a m) =
     Inr (statementLines
            (balanceAfter 0 (sort_key txn_date
               (filter (\<lambda>txn. txn_date txn < m @ ''01'') (acc_transactions acc))))
            (sort_key txn_date
               (filter (\<lambda>txn. startsWith (txn_date txn) m) (acc_transactions acc))))"
proof -
  let ?B = "balanceAfter
                 (balanceAfter 0 (sort_key txn_date
                    (filter (\<lambda>txn. txn_date txn < m @ ''01'') (acc_transactions acc))))
                 (sort_key txn_date
                    (filter (\<lambda>txn. startsWith (txn_date txn) m) (acc_transactions acc)))"
  have c: "calculateMonthlyInterest s a m ?B = Inr (x, s')"
    using assms(5) calculateMonthlyInterest_endBalance [of s a m ?B b] by simp
  have ne: "sort_key txn_date
      (filter (\<lambda>txn. startsWith (txn_date txn) m) (acc_transactions acc)) \<noteq> []"
    using assms(4) by (metis length_sort length_0_conv)
  show ?thesis
    using assms(1-3,6) ne
    by (auto simp: printStatement_def year_month year_month_suffix Let_def sortBy_byDate c)
qed

text \<open>A deposit of 100.00 on 20230101 and a rate of 2 from that day: the statement of
  January.\<close>

lemma january_session:
  "run [CmdT ''20230101'' ''AC001'' ''D'' ''100.00'' (Some 100),
        CmdI ''20230101'' ''RULE01'' (Some 2)] =
   \<lparr>accounts = [''AC001'' \<mapsto> \<lparr>createdDate = ''20230101'', acc_transactions =
        [\<lparr>txn_date = ''20230101'', txn_account = ''AC001'', txn_type = ''D'',
          txn_amount = 100, txn_id = ''20230101-01'', txn_balance = 0\<rparr>]\<rparr>],
     transactions =
        [\<lparr>txn_date = ''20230101'', txn_account = ''AC001'', txn_type = ''D'',
          txn_amount = 100, txn_id = ''20230101-01'', txn_balance = 0\<rparr>],
     interestRules = [\<lparr>rule_date = ''20230101'', rule_id = ''RULE01'', rule_rate = 2\<rparr>],
     runningNumbers = [''20230101'' \<mapsto> 1]\<rparr>"
  by (simp add: run_def inputTransaction_deposit valid_20230101 upper_D amount_100_00
        defineInterestRule_accepted upsertRule_def
        recordTransaction_defs BankAccountSystem_def sortBy_def
        toString.simps [of "Suc 0"] digitChar_def padStart_def)

lemma lastDay_202301: "lastDayOfMonth ''202301'' = 31"
  by (simp add: lastDayOfMonth_def parseInt_def substring_def isDigit_def digitVal_def
        daysIn_def Let_def)

lemma january_interest:
  assumes "interestRules s = [\<lparr>rule_date = ''20230101'', rule_id = ''RULE01'', rule_rate = 2\<rparr>]"
  shows "monthly_interest s
        [\<lparr>txn_date = ''20230101'', txn_account = ''AC001'', txn_type = ''D'',
          txn_amount = 100, txn_id = ''20230101-01'', txn_balance = 0\<rparr>] ''202301'' =
     17 / 100"
proof -
  let ?f = "\<lambda>d. getInterestRate s (dateKey ''202301'' d)"
  let ?txns = "[\<lparr>txn_date = ''20230101'', txn_account = ''AC001'', txn_type = ''D'',
          txn_amount = 100, txn_id = ''20230101-01'', txn_balance = 0\<rparr>]"
  have k1: "dateKey ''202301'' 1 = ''20230101''" by (simp only: dateKey_1) simp
  have rate: "?f d = 2" if "1 \<le> d" "d < 100" for d
  proof -
    have "(dateKey ''202301'' 1 \<le> dateKey ''202301'' d) = (1 \<le> d)"
      using that(2) by (intro dateKey_le) simp_all
    with that(1) have "''20230101'' \<le> dateKey ''202301'' d" by (simp only: k1)
    then show ?thesis
      by (simp add: getInterestRate_def assms sortBy_def)
  qed
  have "\<forall>e\<in>set [2..<32]. ?f e = ?f 1"
  proof
    fix e :: nat
    assume "e \<in> set [2..<32]"
    then have "2 \<le> e \<and> e < 32" by (simp only: set_upt atLeastLessThan_iff)
    then have "?f e = 2" by (intro rate) simp_all
    moreover have "?f 1 = 2" by (intro rate) simp_all
    ultimately show "?f e = ?f 1" by (simp only:)
  qed
  then have "rate_runs ?f (1 # [2..<32]) = [1 # [2..<32]]" by (rule rate_runs_const)
  moreover have "[1..<Suc 31] = 1 # [2..<32]" by (simp add: upt_conv_Cons)
  ultimately have rr: "rate_runs ?f [1..<Suc 31] = [1 # [2..<32]]" by (simp only:)
  have "balance_as_of ?txns (dateKey ''202301'' 1) = 100"
    by (simp only: k1)
       (simp add: balance_as_of_def chronological_def balanceAfter_def calculateNewBalance_def)
  moreover have "?f 1 = 2" by (intro rate) simp_all
  ultimately have r1: "run_interest s ?txns ''202301'' (1 # [2..<32]) = 100 * 2 / 100 * 31 / 365"
    by (simp add: run_interest_def)
  have "toFixedValue (100 * 2 / 100 * 31 / 365) = 17 / 100"
    by (simp add: toFixedValue_def toFixedCents_def floor_rat_numeral)
  then show ?thesis
    by (simp only: monthly_interest_def lastDay_202301 rr list.map sum_list.Cons sum_list.Nil
          r1 add_0_right)
qed

lemma toFixed_17: "toFixed (17 / 100) = ''0.17''"
  by (simp add: toFixed_def toFixedCents_def floor_rat_numeral toString.simps digitChar_def
        padStart_def Let_def)

lemma toFixed_100_17: "toFixed (10017 / 100) = ''100.17''"
  by (simp add: toFixed_def toFixedCents_def floor_rat_numeral toString.simps digitChar_def
        padStart_def Let_def)

text \<open>
  Claim C8 fails on the code for a month that does not have 30 days. The statement of
  January, a month of 31 days, ends with one interest line without identifier, of type
  \<open>I\<close> and with the interest 0.17 as its amount, but dated 20230130: the method
  writes the day \<open>30\<close> whatever the month, under the comment "Last day of month".
\<close>

theorem interest_line_dated_30:
  "fst (printStatement
       (run [CmdT ''20230101'' ''AC001'' ''D'' ''100.00'' (Some 100),
             CmdI ''20230101'' ''RULE01'' (Some 2)]) ''AC001'' ''202301'') =
     Inr [\<lparr>line_date = ''20230101'', line_txnId = ''20230101-01'', line_type = ''D'',
            line_amount = ''100.00'', line_balance = ''100.00''\<rparr>,
          \<lparr>line_date = ''20230130'', line_txnId = [], line_type = ''I'',
            line_amount = ''0.17'', line_balance = ''100.17''\<rparr>] \<and>
   lastDayOfMonth ''202301'' = 31"
proof
  let ?s = "run [CmdT ''20230101'' ''AC001'' ''D'' ''100.00'' (Some 100),
             CmdI ''20230101'' ''RULE01'' (Some 2)]"
  let ?txn = "\<lparr>txn_date = ''20230101'', txn_account = ''AC001'', txn_type = ''D'',
          txn_amount = 100, txn_id = ''20230101-01'', txn_balance = 0\<rparr>"
  let ?acc = "\<lparr>createdDate = ''20230101'', acc_transactions = [?txn]\<rparr>"
  have a: "accounts ?s ''AC001'' = Some ?acc" by (simp add: january_session)
  have r: "interestRules ?s = [\<lparr>rule_date = ''20230101'', rule_id = ''RULE01'', rule_rate = 2\<rparr>]"
    by (simp add: january_session)
  have v: "\<forall>x\<in>set (acc_transactions ?acc). isValidDate (txn_date x)"
    by (simp add: valid_20230101)
  have m: "isValidMonth ''202301''" using valid_20230101 by (simp add: isValidMonth_def)
  have n: "\<forall>r\<in>set (interestRules ?s). 0 \<le> rule_rate r" by (simp add: r)
  have t: "acc_transactions ?acc = [?txn]" by simp
  from calculateMonthlyInterest_runs [OF a v m n, of 0]
  obtain s' where "calculateMonthlyInterest ?s ''AC001'' ''202301'' 0 =
      Inr (Num (monthly_interest ?s (acc_transactions ?acc) ''202301''), s')"
    by blast
  then have c: "calculateMonthlyInterest ?s ''AC001'' ''202301'' 0 = Inr (Num (17 / 100), s')"
    by (simp only: t january_interest [OF r])
  have f: "filter (\<lambda>txn. startsWith (txn_date txn) ''202301'') (acc_transactions ?acc) = [?txn]"
    by (simp add: startsWith_def)
  have g: "filter (\<lambda>txn. txn_date txn < ''202301'' @ ''01'') (acc_transactions ?acc) = []"
    by simp
  have d: "\<not> isNaN ''202301''" by (simp add: isNaN_def isDigit_def)
  have "fst (printStatement ?s ''AC001'' ''202301'') =
     Inr (statementLines
            (balanceAfter 0 (sort_key txn_date
               (filter (\<lambda>txn. txn_date txn < ''202301'' @ ''01'') (acc_transactions ?acc))))
            (sort_key txn_date
               (filter (\<lambda>txn. startsWith (txn_date txn) ''202301'') (acc_transactions ?acc))) @
          [\<lparr>line_date = ''202301'' @ ''30'', line_txnId = [], line_type = ''I'',
            line_amount = toFixed (17 / 100),
            line_balance = toFixed
              (balanceAfter
                 (balanceAfter 0 (sort_key txn_date
                    (filter (\<lambda>txn. txn_date txn < ''202301'' @ ''01'') (acc_transactions ?acc))))
                 (sort_key txn_date
                    (filter (\<lambda>txn. startsWith (txn_date txn) ''202301'') (acc_transactions ?acc)))
               + 17 / 100)\<rparr>])"
    using a _ d _ c by (rule printStatement_interest_line) (simp_all add: startsWith_def)
  then show "fst (printStatement ?s ''AC001'' ''202301'') =
     Inr [\<lparr>line_date = ''20230101'', line_txnId = ''20230101-01'', line_type = ''D'',
            line_amount = ''100.00'', line_balance = ''100.00''\<rparr>,
          \<lparr>line_date = ''20230130'', line_txnId = [], line_type = ''I'',
            line_amount = ''0.17'', line_balance = ''100.17''\<rparr>]"
    by (simp only: f g)
       (simp add: balanceAfter_def calculateNewBalance_def toFixed_100 toFixed_17 toFixed_100_17)
next
  show "lastDayOfMonth ''202301'' = 31" by (rule lastDay_202301)
qed

text \<open>Hence the date of the last line is not the last day of January.\<close>

theorem interest_line_dated_30_witness:
  "map line_date (case fst (printStatement
       (run [CmdT ''20230101'' ''AC001'' ''D'' ''100.00'' (Some 100),
             CmdI ''20230101'' ''RULE01'' (Some 2)]) ''AC001'' ''202301'') of
      Inl e \<Rightarrow> [] | Inr ls \<Rightarrow> ls) = [''20230101'', ''20230130'']"
  using interest_line_dated_30 by simp

end
